theory Spec2Isabelle
  imports Main "HOL-Library.AList"
begin

section \<open>Data model\<close>

text \<open>
  Python values are dynamically typed and any of them may be \<^verbatim>\<open>None\<close>.  A stored value is
  therefore an \<open>'a option\<close>, where \<open>'a\<close> is the type of all values other than \<^verbatim>\<open>None\<close>
  (update records and checkpoints alike).  A Python \<^verbatim>\<open>dict\<close> keeps its keys in insertion
  order and is iterated in that order, so a dict is an association list that is only ever
  changed through \<open>AList.update\<close> (assignment to a key) and \<open>AList.delete\<close> (\<^verbatim>\<open>pop\<close>).

  Deltas are treated as values: every delta handed to \<^verbatim>\<open>merge\<close> is a fresh object that the
  caller does not keep or mutate afterwards.
\<close>

type_synonym 'a pydict = "(string \<times> 'a) list"

text \<open>\<^verbatim>\<open>d.get(k, default)\<close>\<close>

definition dict_get :: "('k \<times> 'v) list \<Rightarrow> 'k \<Rightarrow> 'v \<Rightarrow> 'v" where
  "dict_get d k dflt = (case map_of d k of None \<Rightarrow> dflt | Some v \<Rightarrow> v)"

text \<open>\<^verbatim>\<open>fetch_state.FetchDelta\<close>: a batch of updates and the checkpoint reached after it.\<close>

record 'a FetchDelta =
  updates :: "'a option pydict"
  checkpoint :: "'a option"

text \<open>\<^verbatim>\<open>CollaborationConfigBase\<close>: only the name is ever read.\<close>

record CollaborationConfigBase =
  name :: string

text \<open>
  The two functions of \<^verbatim>\<open>api_cls\<close> that the stores call.  \<^verbatim>\<open>naive_fetch_merge(old, new)\<close>
  mutates \<^verbatim>\<open>old\<close> in place; here it returns the new contents of \<^verbatim>\<open>old\<close>.
\<close>

record ('a, 'st, 'm) api_cls =
  naive_fetch_merge :: "'a option pydict \<Rightarrow> 'a option pydict \<Rightarrow> 'a option pydict"
  naive_convert_to_signal_type ::
    "'st list \<Rightarrow> CollaborationConfigBase \<Rightarrow> 'a option pydict \<Rightarrow> ('st \<times> 'm pydict) list"

text \<open>
  Exceptions: the assertion of \<^verbatim>\<open>_StateTracker.delta\<close>, and whatever a snapshot hook raises
  (\<^verbatim>\<open>NotImplementedError\<close> for the hooks of \<^verbatim>\<open>SimpleFetchedStateStore\<close> itself).
\<close>

datatype 'e error = AssertionError | Raised 'e

datatype exn = NotImplementedError

section \<open>\<^verbatim>\<open>_StateTracker\<close>\<close>

text \<open>
  The field \<^verbatim>\<open>api_cls\<close> of a tracker is always the \<^verbatim>\<open>api_cls\<close> of the store that created
  it, so it is passed to \<open>set_delta\<close> as an argument instead of being stored.
\<close>

record 'a StateTracker =
  tr_delta :: "'a FetchDelta option"
  dirty :: bool

definition tracker_empty :: "'a StateTracker \<Rightarrow> bool" where
  "tracker_empty t = (tr_delta t = None)"

definition tracker_delta :: "'a StateTracker \<Rightarrow> 'e error + 'a FetchDelta" where
  "tracker_delta t = (case tr_delta t of None \<Rightarrow> Inl AssertionError | Some d \<Rightarrow> Inr d)"

definition set_delta ::
  "('a, 'st, 'm) api_cls \<Rightarrow> 'a StateTracker \<Rightarrow> 'a FetchDelta \<Rightarrow> 'a StateTracker" where
  "set_delta api t v =
     (case tr_delta t of
        None \<Rightarrow>
          (let old = naive_fetch_merge api [] (updates v)
           in t\<lparr>tr_delta := Some (v\<lparr>updates := old, checkpoint := checkpoint v\<rparr>),
                dirty := True\<rparr>)
      | Some cur \<Rightarrow>
          (let old = naive_fetch_merge api (updates cur) (updates v)
           in t\<lparr>tr_delta := Some (cur\<lparr>updates := old, checkpoint := checkpoint v\<rparr>),
                dirty := True\<rparr>))"

definition tracker_checkpoint :: "'a StateTracker \<Rightarrow> 'a option" where
  "tracker_checkpoint t = (case tr_delta t of None \<Rightarrow> None | Some d \<Rightarrow> checkpoint d)"

section \<open>\<^verbatim>\<open>SimpleFetchedStateStore\<close>\<close>

text \<open>
  \<^verbatim>\<open>_read_state\<close> and \<^verbatim>\<open>_write_state\<close> are left to a subclass.  They act on a durable
  backing store of some type \<open>'b\<close> and may raise.
\<close>

record ('a, 'b, 'e) hooks =
  read_state :: "'b \<Rightarrow> string \<Rightarrow> 'e + 'a FetchDelta option"
  write_state :: "'b \<Rightarrow> string \<Rightarrow> 'a FetchDelta \<Rightarrow> 'e + 'b"

text \<open>The hooks as \<^verbatim>\<open>SimpleFetchedStateStore\<close> itself defines them.\<close>

definition base_hooks :: "('a, 'b, exn) hooks" where
  "base_hooks =
     \<lparr>read_state = (\<lambda>b n. Inl NotImplementedError),
      write_state = (\<lambda>b n d. Inl NotImplementedError)\<rparr>"

text \<open>
  The store: \<open>state\<close> is the dict \<^verbatim>\<open>self._state\<close>, \<open>backing\<close> is what the hooks read and
  write, and \<open>hook_writes\<close> lists the calls of \<^verbatim>\<open>_write_state\<close> made so far, oldest first.
\<close>

record ('a, 'b) SimpleFetchedStateStore =
  state :: "'a StateTracker pydict"
  backing :: 'b
  hook_writes :: "(string \<times> 'a FetchDelta) list"

definition simple_init :: "'b \<Rightarrow> ('a, 'b) SimpleFetchedStateStore" where
  "simple_init b = \<lparr>state = [], backing = b, hook_writes = []\<rparr>"

text \<open>
  An operation that changes the store returns the store it leaves behind together with the
  exception it raised, if any: a Python exception does not undo the mutations made before it.
  The external functions of \<^verbatim>\<open>api_cls\<close> are taken to return normally, and a hook that raises
  leaves the backing store as it was.
\<close>

definition get_state ::
  "('a, 'b, 'e) hooks \<Rightarrow> ('a, 'b) SimpleFetchedStateStore \<Rightarrow> CollaborationConfigBase
     \<Rightarrow> ('e error + 'a StateTracker) \<times> ('a, 'b) SimpleFetchedStateStore" where
  "get_state h s collab =
     (case map_of (state s) (name collab) of
        Some t \<Rightarrow> (Inr t, s)
      | None \<Rightarrow>
          (case read_state h (backing s) (name collab) of
             Inl e \<Rightarrow> (Inl (Raised e), s)
           | Inr d \<Rightarrow>
               (let t = \<lparr>tr_delta = d, dirty = False\<rparr>
                in (Inr t, s\<lparr>state := AList.update (name collab) t (state s)\<rparr>))))"

definition simple_get_checkpoint ::
  "('a, 'b, 'e) hooks \<Rightarrow> ('a, 'b) SimpleFetchedStateStore \<Rightarrow> CollaborationConfigBase
     \<Rightarrow> ('e error + 'a option) \<times> ('a, 'b) SimpleFetchedStateStore" where
  "simple_get_checkpoint h s collab =
     (case get_state h s collab of
        (Inl e, s1) \<Rightarrow> (Inl e, s1)
      | (Inr t, s1) \<Rightarrow> (Inr (tracker_checkpoint t), s1))"

definition simple_clear ::
  "('a, 'b) SimpleFetchedStateStore \<Rightarrow> CollaborationConfigBase
     \<Rightarrow> ('a, 'b) SimpleFetchedStateStore" where
  "simple_clear s collab = s\<lparr>state := AList.delete (name collab) (state s)\<rparr>"

definition simple_merge ::
  "('a, 'st, 'm) api_cls \<Rightarrow> ('a, 'b, 'e) hooks \<Rightarrow> ('a, 'b) SimpleFetchedStateStore
     \<Rightarrow> CollaborationConfigBase \<Rightarrow> 'a FetchDelta
     \<Rightarrow> 'e error option \<times> ('a, 'b) SimpleFetchedStateStore" where
  "simple_merge api h s collab delta =
     (case get_state h s collab of
        (Inl e, s1) \<Rightarrow> (Some e, s1)
      | (Inr t, s1) \<Rightarrow>
          if length (updates delta) = 0
             \<and> (checkpoint delta = None \<or> checkpoint delta = tracker_checkpoint t)
          then (None, s1)
          else (None,
                s1\<lparr>state := AList.update (name collab) (set_delta api t delta) (state s1)\<rparr>))"

text \<open>
  The loop of \<^verbatim>\<open>flush\<close> over \<^verbatim>\<open>self._state.items()\<close>: the trackers still to visit, the
  backing store and the log of hook calls so far.  It returns the trackers as they are when
  the loop ends or is left by an exception.
\<close>

fun flush_loop ::
  "('a, 'b, 'e) hooks \<Rightarrow> 'a StateTracker pydict \<Rightarrow> 'b \<Rightarrow> (string \<times> 'a FetchDelta) list
     \<Rightarrow> 'e error option \<times> 'a StateTracker pydict \<times> 'b \<times> (string \<times> 'a FetchDelta) list" where
  "flush_loop h [] b w = (None, [], b, w)"
| "flush_loop h ((collab_name, st) # rest) b w =
     (if dirty st then
        (case tracker_delta st of
           Inl e \<Rightarrow> (Some e, (collab_name, st) # rest, b, w)
         | Inr d \<Rightarrow>
             (case write_state h b collab_name d of
                Inl e \<Rightarrow> (Some (Raised e), (collab_name, st) # rest, b, w @ [(collab_name, d)])
              | Inr b' \<Rightarrow>
                  (case flush_loop h rest b' (w @ [(collab_name, d)]) of
                     (err, rest', b'', w') \<Rightarrow>
                       (err, (collab_name, st\<lparr>dirty := False\<rparr>) # rest', b'', w'))))
      else
        (case flush_loop h rest b w of
           (err, rest', b', w') \<Rightarrow> (err, (collab_name, st) # rest', b', w')))"

definition simple_flush ::
  "('a, 'b, 'e) hooks \<Rightarrow> ('a, 'b) SimpleFetchedStateStore \<Rightarrow> CollaborationConfigBase
     \<Rightarrow> 'e error option \<times> ('a, 'b) SimpleFetchedStateStore" where
  "simple_flush h s collab =
     (case flush_loop h (state s) (backing s) (hook_writes s) of
        (err, ts, b, w) \<Rightarrow> (err, s\<lparr>state := ts, backing := b, hook_writes := w\<rparr>))"

text \<open>The loop of \<^verbatim>\<open>get_for_signal_type\<close> over \<^verbatim>\<open>collabs\<close>, with \<^verbatim>\<open>ret\<close> as accumulator.\<close>

fun simple_gfst_loop ::
  "('a, 'st, 'm) api_cls \<Rightarrow> ('a, 'b, 'e) hooks \<Rightarrow> 'st \<Rightarrow> CollaborationConfigBase list
     \<Rightarrow> ('a, 'b) SimpleFetchedStateStore \<Rightarrow> 'm pydict pydict
     \<Rightarrow> ('e error + 'm pydict pydict) \<times> ('a, 'b) SimpleFetchedStateStore" where
  "simple_gfst_loop api h signal_type [] s ret = (Inr ret, s)"
| "simple_gfst_loop api h signal_type (collab # rest) s ret =
     (case get_state h s collab of
        (Inl e, s1) \<Rightarrow> (Inl e, s1)
      | (Inr t, s1) \<Rightarrow>
          if \<not> tracker_empty t then
            (case tracker_delta t of
               Inl e \<Rightarrow> (Inl e, s1)
             | Inr d \<Rightarrow>
                 (let by_signal =
                        dict_get (naive_convert_to_signal_type api [signal_type] collab (updates d))
                          signal_type []
                  in if by_signal \<noteq> []
                     then simple_gfst_loop api h signal_type rest s1
                            (AList.update (name collab) by_signal ret)
                     else simple_gfst_loop api h signal_type rest s1 ret))
          else simple_gfst_loop api h signal_type rest s1 ret)"

definition simple_get_for_signal_type ::
  "('a, 'st, 'm) api_cls \<Rightarrow> ('a, 'b, 'e) hooks \<Rightarrow> ('a, 'b) SimpleFetchedStateStore
     \<Rightarrow> CollaborationConfigBase list \<Rightarrow> 'st
     \<Rightarrow> ('e error + 'm pydict pydict) \<times> ('a, 'b) SimpleFetchedStateStore" where
  "simple_get_for_signal_type api h s collabs signal_type =
     simple_gfst_loop api h signal_type collabs s []"

text \<open>
  The invariant that the assertion in \<^verbatim>\<open>flush\<close> relies on, and the calls of
  \<^verbatim>\<open>_write_state\<close> that a flush owes: one for each dirty tracker, in dict order.
\<close>

definition dirty_has_delta :: "'a StateTracker pydict \<Rightarrow> bool" where
  "dirty_has_delta ts = (\<forall>(n, t) \<in> set ts. dirty t \<longrightarrow> \<not> tracker_empty t)"

fun pending_writes :: "'a StateTracker pydict \<Rightarrow> (string \<times> 'a FetchDelta) list" where
  "pending_writes [] = []"
| "pending_writes ((collab_name, st) # rest) =
     (if dirty st then (case tr_delta st of None \<Rightarrow> [] | Some d \<Rightarrow> [(collab_name, d)]) else [])
     @ pending_writes rest"

text \<open>The stores that a program can reach by calling the operations, whether they raise or not.\<close>

inductive reachable ::
  "('a, 'st, 'm) api_cls \<Rightarrow> ('a, 'b, 'e) hooks \<Rightarrow> ('a, 'b) SimpleFetchedStateStore \<Rightarrow> bool"
  for api :: "('a, 'st, 'm) api_cls" and h :: "('a, 'b, 'e) hooks" where
  r_init: "reachable api h (simple_init b)"
| r_get_checkpoint: "reachable api h s \<Longrightarrow> reachable api h (snd (simple_get_checkpoint h s collab))"
| r_clear: "reachable api h s \<Longrightarrow> reachable api h (simple_clear s collab)"
| r_merge: "reachable api h s \<Longrightarrow> reachable api h (snd (simple_merge api h s collab delta))"
| r_flush: "reachable api h s \<Longrightarrow> reachable api h (snd (simple_flush h s collab))"
| r_get_for_signal_type:
    "reachable api h s \<Longrightarrow>
       reachable api h (snd (simple_get_for_signal_type api h s collabs signal_type))"

section \<open>\<^verbatim>\<open>DBMStorage\<close>\<close>

text \<open>
  Modelled from the spec: \<^verbatim>\<open>threatexchange.exchanges.storage.DBMStorage\<close>, the key-value
  store behind \<^verbatim>\<open>DBMFetchedStateStore\<close>, which exposes \<^verbatim>\<open>connect(namespace)\<close> and, on the
  handle, \<^verbatim>\<open>get(key)\<close>, \<^verbatim>\<open>set(key, value)\<close>, iteration over all entries, \<^verbatim>\<open>exists()\<close> and
  \<^verbatim>\<open>drop()\<close>.  A namespace comes into existence with its first \<^verbatim>\<open>set\<close>; \<^verbatim>\<open>get\<close> of a
  missing key yields \<^verbatim>\<open>None\<close>; \<open>db_log\<close> lists the durable writes made so far, oldest first.
\<close>

datatype 'a db_write = SetKey string string "'a option" | Drop string

record 'a DBMStorage =
  spaces :: "string \<Rightarrow> 'a option pydict option"
  db_log :: "'a db_write list"

definition db_init :: "'a DBMStorage" where
  "db_init = \<lparr>spaces = (\<lambda>ns. None), db_log = []\<rparr>"

definition db_items :: "'a DBMStorage \<Rightarrow> string \<Rightarrow> 'a option pydict" where
  "db_items S ns = (case spaces S ns of None \<Rightarrow> [] | Some es \<Rightarrow> es)"

definition db_get :: "'a DBMStorage \<Rightarrow> string \<Rightarrow> string \<Rightarrow> 'a option" where
  "db_get S ns k = dict_get (db_items S ns) k None"

definition db_set :: "'a DBMStorage \<Rightarrow> string \<Rightarrow> string \<Rightarrow> 'a option \<Rightarrow> 'a DBMStorage" where
  "db_set S ns k v =
     S\<lparr>spaces := (spaces S)(ns := Some (AList.update k v (db_items S ns))),
       db_log := db_log S @ [SetKey ns k v]\<rparr>"

definition db_exists :: "'a DBMStorage \<Rightarrow> string \<Rightarrow> bool" where
  "db_exists S ns = (spaces S ns \<noteq> None)"

definition db_drop :: "'a DBMStorage \<Rightarrow> string \<Rightarrow> 'a DBMStorage" where
  "db_drop S ns = S\<lparr>spaces := (spaces S)(ns := None), db_log := db_log S @ [Drop ns]\<rparr>"

section \<open>\<^verbatim>\<open>DBMFetchedStateStore\<close>\<close>

text \<open>The namespace \<^verbatim>\<open>f'{collab.name}_checkpoint'\<close>.\<close>

definition checkpoint_ns :: "CollaborationConfigBase \<Rightarrow> string" where
  "checkpoint_ns collab = name collab @ ''_checkpoint''"

text \<open>The dict comprehension \<^verbatim>\<open>{k: v for k, v in db}\<close>.\<close>

definition dict_of_items :: "('k \<times> 'v) list \<Rightarrow> ('k \<times> 'v) list" where
  "dict_of_items es = foldl (\<lambda>acc (k, v). AList.update k v acc) [] es"

fun dbm_gfst_loop ::
  "('a, 'st, 'm) api_cls \<Rightarrow> 'a DBMStorage \<Rightarrow> 'st \<Rightarrow> CollaborationConfigBase list
     \<Rightarrow> 'm pydict pydict \<Rightarrow> 'm pydict pydict" where
  "dbm_gfst_loop api S signal_type [] ret = ret"
| "dbm_gfst_loop api S signal_type (collab # rest) ret =
     (let data = dict_of_items (db_items S (name collab));
          by_signal =
            dict_get (naive_convert_to_signal_type api [signal_type] collab data) signal_type []
      in if by_signal \<noteq> []
         then dbm_gfst_loop api S signal_type rest (AList.update (name collab) by_signal ret)
         else dbm_gfst_loop api S signal_type rest ret)"

definition dbm_get_for_signal_type ::
  "('a, 'st, 'm) api_cls \<Rightarrow> 'a DBMStorage \<Rightarrow> CollaborationConfigBase list \<Rightarrow> 'st
     \<Rightarrow> 'm pydict pydict" where
  "dbm_get_for_signal_type api S collabs signal_type = dbm_gfst_loop api S signal_type collabs []"

definition dbm_clear :: "'a DBMStorage \<Rightarrow> CollaborationConfigBase \<Rightarrow> 'a DBMStorage" where
  "dbm_clear S collab = db_drop S (name collab)"

definition dbm_exists :: "'a DBMStorage \<Rightarrow> CollaborationConfigBase \<Rightarrow> bool" where
  "dbm_exists S collab = db_exists S (name collab)"

definition dbm_flush :: "'a DBMStorage \<Rightarrow> CollaborationConfigBase \<Rightarrow> 'a DBMStorage" where
  "dbm_flush S collab =
     db_set S (checkpoint_ns collab) ''checkpoint''
       (db_get S (checkpoint_ns collab) ''_checkpoint'')"

definition dbm_merge ::
  "'a DBMStorage \<Rightarrow> CollaborationConfigBase \<Rightarrow> 'a FetchDelta \<Rightarrow> 'a DBMStorage" where
  "dbm_merge S collab delta =
     (if length (updates delta) = 0
         \<and> (checkpoint delta = None
            \<or> checkpoint delta = db_get S (checkpoint_ns collab) ''checkpoint'')
      then S
      else
        (let S1 = foldl (\<lambda>db (k, v). db_set db (name collab) k v) S (updates delta)
         in db_set S1 (checkpoint_ns collab) ''_checkpoint'' (checkpoint delta)))"

definition dbm_get_checkpoint :: "'a DBMStorage \<Rightarrow> CollaborationConfigBase \<Rightarrow> 'a option" where
  "dbm_get_checkpoint S collab = db_get S (checkpoint_ns collab) ''checkpoint''"

section \<open>Sequences of calls on one collaboration\<close>

datatype 'a call = Merge "'a FetchDelta" | Flush

fun simple_call ::
  "('a, 'st, 'm) api_cls \<Rightarrow> ('a, 'b, 'e) hooks \<Rightarrow> CollaborationConfigBase
     \<Rightarrow> ('a, 'b) SimpleFetchedStateStore \<Rightarrow> 'a call
     \<Rightarrow> 'e error option \<times> ('a, 'b) SimpleFetchedStateStore" where
  "simple_call api h collab s (Merge d) = simple_merge api h s collab d"
| "simple_call api h collab s Flush = simple_flush h s collab"

definition simple_run ::
  "('a, 'st, 'm) api_cls \<Rightarrow> ('a, 'b, 'e) hooks \<Rightarrow> CollaborationConfigBase
     \<Rightarrow> ('a, 'b) SimpleFetchedStateStore \<Rightarrow> 'a call list
     \<Rightarrow> ('a, 'b) SimpleFetchedStateStore" where
  "simple_run api h collab s calls = foldl (\<lambda>s' x. snd (simple_call api h collab s' x)) s calls"

fun dbm_call :: "CollaborationConfigBase \<Rightarrow> 'a DBMStorage \<Rightarrow> 'a call \<Rightarrow> 'a DBMStorage" where
  "dbm_call collab S (Merge d) = dbm_merge S collab d"
| "dbm_call collab S Flush = dbm_flush S collab"

definition dbm_run ::
  "CollaborationConfigBase \<Rightarrow> 'a DBMStorage \<Rightarrow> 'a call list \<Rightarrow> 'a DBMStorage" where
  "dbm_run collab S calls = foldl (dbm_call collab) S calls"

text \<open>
  No delta of the list is skipped by the no-op test of \<^verbatim>\<open>SimpleFetchedStateStore.merge\<close>,
  when \<open>cp\<close> is the checkpoint of the tracker before the first of them.
\<close>

fun noop_free :: "'a option \<Rightarrow> 'a FetchDelta list \<Rightarrow> bool" where
  "noop_free cp [] = True"
| "noop_free cp (d # ds) =
     (\<not> (length (updates d) = 0 \<and> (checkpoint d = None \<or> checkpoint d = cp))
      \<and> noop_free (checkpoint d) ds)"

text \<open>
  What one collaboration contributes to \<^verbatim>\<open>get_for_signal_type\<close>: the converted records of the
  requested signal type, from the tracker of the in-memory store and from the data
  namespace of the persistent store.
\<close>

definition simple_contribution ::
  "('a, 'st, 'm) api_cls \<Rightarrow> 'st \<Rightarrow> ('a, 'b) SimpleFetchedStateStore \<Rightarrow> CollaborationConfigBase
     \<Rightarrow> 'm pydict" where
  "simple_contribution api signal_type s collab =
     (case map_of (state s) (name collab) of
        None \<Rightarrow> []
      | Some t \<Rightarrow>
          (case tr_delta t of
             None \<Rightarrow> []
           | Some d \<Rightarrow>
               dict_get (naive_convert_to_signal_type api [signal_type] collab (updates d))
                 signal_type []))"

definition dbm_contribution ::
  "('a, 'st, 'm) api_cls \<Rightarrow> 'st \<Rightarrow> 'a DBMStorage \<Rightarrow> CollaborationConfigBase \<Rightarrow> 'm pydict" where
  "dbm_contribution api signal_type S collab =
     dict_get
       (naive_convert_to_signal_type api [signal_type] collab
          (dict_of_items (db_items S (name collab))))
       signal_type []"

text \<open>
  The two stores hold the same state for one collaboration, when \<open>b\<close> is the backing store
  that the in-memory store started from: either the collaboration is not tracked, no tracker
  exists, and the data namespace and the staged checkpoint are empty; or its tracker is the
  only one and holds the entries of the data namespace and the staged checkpoint.
\<close>

definition stores_agree ::
  "CollaborationConfigBase \<Rightarrow> 'b \<Rightarrow> ('a, 'b) SimpleFetchedStateStore \<Rightarrow> 'a DBMStorage \<Rightarrow> bool" where
  "stores_agree collab b s S =
     (case map_of (state s) (name collab) of
        None \<Rightarrow>
          state s = [] \<and> backing s = b \<and> db_items S (name collab) = []
          \<and> db_get S (checkpoint_ns collab) ''_checkpoint'' = None
      | Some t \<Rightarrow>
          state s = [(name collab, t)]
          \<and> tr_delta t = Some \<lparr>updates = db_items S (name collab),
                                  checkpoint = db_get S (checkpoint_ns collab) ''_checkpoint''\<rparr>
          \<and> distinct (map fst (db_items S (name collab))))"

section \<open>Sample hooks, merge functions and inputs\<close>

text \<open>A subclass of \<^verbatim>\<open>SimpleFetchedStateStore\<close> that keeps its snapshots in a dict.\<close>

definition dict_hooks :: "('a, 'a FetchDelta pydict, exn) hooks" where
  "dict_hooks =
     \<lparr>read_state = (\<lambda>b n. Inr (map_of b n)),
      write_state = (\<lambda>b n d. Inr (AList.update n d b))\<rparr>"

text \<open>
  Modelled from the spec: \<^verbatim>\<open>naive_fetch_merge\<close> of an exchange, which combines the new batch
  into the existing map, where new values may overwrite or delete existing keys.
  \<open>overwrite_merge\<close> assigns every new entry to its key; \<open>tombstone_merge\<close> does the same but
  removes the key when the new value is \<^verbatim>\<open>None\<close>.
\<close>

definition overwrite_merge :: "'a option pydict \<Rightarrow> 'a option pydict \<Rightarrow> 'a option pydict" where
  "overwrite_merge old new = foldl (\<lambda>acc (k, v). AList.update k v acc) old new"

definition tombstone_merge :: "'a option pydict \<Rightarrow> 'a option pydict \<Rightarrow> 'a option pydict" where
  "tombstone_merge old new =
     foldl (\<lambda>acc (k, v). case v of None \<Rightarrow> AList.delete k acc | Some x \<Rightarrow> AList.update k v acc)
       old new"

text \<open>A converter that hands every requested signal type all the records as they are.\<close>

definition plain_convert ::
  "'st list \<Rightarrow> CollaborationConfigBase \<Rightarrow> 'a option pydict \<Rightarrow> ('st \<times> 'a option pydict) list" where
  "plain_convert signal_types collab data = map (\<lambda>st. (st, data)) signal_types"

definition overwrite_api :: "(nat, nat, nat option) api_cls" where
  "overwrite_api =
     \<lparr>naive_fetch_merge = overwrite_merge, naive_convert_to_signal_type = plain_convert\<rparr>"

definition tombstone_api :: "(nat, nat, nat option) api_cls" where
  "tombstone_api =
     \<lparr>naive_fetch_merge = tombstone_merge, naive_convert_to_signal_type = plain_convert\<rparr>"

definition collab_a :: CollaborationConfigBase where
  "collab_a = \<lparr>name = ''a''\<rparr>"

definition collab_b :: CollaborationConfigBase where
  "collab_b = \<lparr>name = ''b''\<rparr>"


definition delta_1 :: "nat FetchDelta" where
  "delta_1 = \<lparr>updates = [(''k1'', Some 1)], checkpoint = Some 100\<rparr>"

definition delta_2 :: "nat FetchDelta" where
  "delta_2 = \<lparr>updates = [(''k1'', None)], checkpoint = Some 200\<rparr>"

definition delta_3 :: "nat FetchDelta" where
  "delta_3 = \<lparr>updates = [], checkpoint = Some 100\<rparr>"


definition delta_none :: "nat FetchDelta" where
  "delta_none = \<lparr>updates = [], checkpoint = None\<rparr>"

definition delta_4 :: "nat FetchDelta" where
  "delta_4 = \<lparr>updates = [(''k2'', Some 2)], checkpoint = Some 300\<rparr>"

text \<open>
  Sample stores: an in-memory store with a dirty and a clean tracker, the in-memory store
  after merging \<open>delta_1\<close> into collaboration \<open>a\<close> and flushing, and the persistent store
  after the same two calls.
\<close>

definition store_flushed :: "(nat, nat FetchDelta pydict) SimpleFetchedStateStore" where
  "store_flushed =
     \<lparr>state = [(''a'', \<lparr>tr_delta = Some delta_1, dirty = False\<rparr>)],
      backing = [(''a'', delta_1)], hook_writes = [(''a'', delta_1)]\<rparr>"

definition db_flushed :: "nat DBMStorage" where
  "db_flushed = dbm_flush (dbm_merge db_init collab_a delta_1) collab_a"

definition store_ab :: "(nat, nat FetchDelta pydict) SimpleFetchedStateStore" where
  "store_ab =
     \<lparr>state = [(''a'', \<lparr>tr_delta = Some delta_1, dirty = True\<rparr>),
               (''b'', \<lparr>tr_delta = None, dirty = False\<rparr>)],
      backing = [], hook_writes = []\<rparr>"

section \<open>The key-value store\<close>

lemma name_neq_checkpoint_ns: "name collab \<noteq> checkpoint_ns collab"
  by (simp add: checkpoint_ns_def)


lemma dict_get_update:
  "dict_get (AList.update k v d) k' dflt = (if k' = k then v else dict_get d k' dflt)"
  by (simp add: dict_get_def update_conv')

lemma db_items_set:
  "db_items (db_set S ns k v) ns' =
     (if ns' = ns then AList.update k v (db_items S ns) else db_items S ns')"
  by (simp add: db_set_def db_items_def)

lemma db_get_set:
  "db_get (db_set S ns k v) ns' k' =
     (if ns' = ns \<and> k' = k then v else db_get S ns' k')"
  by (simp add: db_get_def db_items_set dict_get_update)

lemma db_log_set: "db_log (db_set S ns k v) = db_log S @ [SetKey ns k v]"
  by (simp add: db_set_def)

lemma db_items_set_all:
  "db_items (foldl (\<lambda>db (k, v). db_set db ns k v) S us) ns' =
     (if ns' = ns then foldl (\<lambda>acc (k, v). AList.update k v acc) (db_items S ns) us
      else db_items S ns')"
  by (induction us arbitrary: S) (auto simp: db_items_set)



lemma db_get_drop:
  "db_get (db_drop S ns) ns' k = (if ns' = ns then None else db_get S ns' k)"
  by (simp add: db_get_def db_drop_def db_items_def dict_get_def)

section \<open>The persistent store: two-phase checkpoint\<close>




lemma dbm_get_checkpoint_flush:
  "dbm_get_checkpoint (dbm_flush S collab) collab = db_get S (checkpoint_ns collab) ''_checkpoint''"
  by (simp add: dbm_flush_def dbm_get_checkpoint_def db_get_set)




section \<open>The tracker\<close>

text \<open>
  C8 (as the code has it).  On an empty tracker the \<open>delta\<close> property fails its assertion,
  whereas the \<open>checkpoint\<close> property does not fail: it returns \<^verbatim>\<open>None\<close>.
\<close>

theorem empty_tracker_access:
  "tracker_empty t \<Longrightarrow>
     (tracker_delta t :: 'e error + 'a FetchDelta) = Inl AssertionError
     \<and> tracker_checkpoint t = None"
  by (simp add: tracker_empty_def tracker_delta_def tracker_checkpoint_def)

theorem empty_tracker_access_witness:
  "tracker_empty \<lparr>tr_delta = (None :: nat FetchDelta option), dirty = False\<rparr>
   \<and> (tracker_delta \<lparr>tr_delta = (None :: nat FetchDelta option), dirty = False\<rparr>
        :: exn error + nat FetchDelta) = Inl AssertionError
   \<and> tracker_checkpoint \<lparr>tr_delta = (None :: nat FetchDelta option), dirty = False\<rparr> = None"
proof -
  have e: "tracker_empty \<lparr>tr_delta = (None :: nat FetchDelta option), dirty = False\<rparr>"
    by (simp add: tracker_empty_def)
  show ?thesis
    using e empty_tracker_access [OF e] by simp
qed

text \<open>
  The claim that reading the checkpoint of an empty tracker fails does not hold: the
  property returns \<^verbatim>\<open>None\<close> there, and the stores rely on it in \<open>get_checkpoint\<close> and in
  the no-op test of \<open>merge\<close>.
\<close>

theorem empty_tracker_checkpoint_counterexample:
  "tracker_empty \<lparr>tr_delta = (None :: nat FetchDelta option), dirty = False\<rparr>
   \<and> tracker_checkpoint \<lparr>tr_delta = (None :: nat FetchDelta option), dirty = False\<rparr> = None
   \<and> simple_get_checkpoint dict_hooks (simple_init []) collab_a
       = (Inr (None :: nat option),
          \<lparr>state = [(''a'', \<lparr>tr_delta = None, dirty = False\<rparr>)], backing = [], hook_writes = []\<rparr>)"
  by (simp add: tracker_empty_def tracker_checkpoint_def simple_get_checkpoint_def get_state_def
      simple_init_def dict_hooks_def collab_a_def Let_def)

section \<open>The in-memory store: trackers and the flush loop\<close>

lemma in_set_updateD:
  "(n, t) \<in> set (AList.update k v al) \<Longrightarrow> (n, t) = (k, v) \<or> (n, t) \<in> set al"
  by (induction al) (auto split: if_splits)

lemma in_set_deleteD: "(n, t) \<in> set (AList.delete k al) \<Longrightarrow> (n, t) \<in> set al"
  by (induction al) (auto split: if_splits)

lemma get_state_tracked:
  "map_of (state s) (name collab) = Some t \<Longrightarrow> get_state h s collab = (Inr t, s)"
  by (simp add: get_state_def)

lemma get_state_frame:
  "backing (snd (get_state h s collab)) = backing s
   \<and> hook_writes (snd (get_state h s collab)) = hook_writes s"
  by (simp add: get_state_def Let_def split: option.splits sum.splits)

lemma get_state_lookup:
  "get_state h s collab = (Inr t, s1) \<Longrightarrow> map_of (state s1) (name collab) = Some t"
  by (auto simp: get_state_def Let_def update_conv' split: option.splits sum.splits)

lemma get_state_entries:
  assumes "get_state h s collab = (r, s1)" and "(n, t) \<in> set (state s1)"
  shows "(n, t) \<in> set (state s) \<or> (n = name collab \<and> \<not> dirty t)"
proof (cases "map_of (state s) (name collab)")
  case (Some t0)
  then show ?thesis using assms by (simp add: get_state_def)
next
  case None
  show ?thesis
  proof (cases "read_state h (backing s) (name collab)")
    case (Inl e)
    then show ?thesis using assms None by (simp add: get_state_def)
  next
    case (Inr d)
    then have "state s1 = AList.update (name collab) \<lparr>tr_delta = d, dirty = False\<rparr> (state s)"
      using assms(1) None by (auto simp: get_state_def Let_def)
    then have "(n, t) \<in> set (AList.update (name collab) \<lparr>tr_delta = d, dirty = False\<rparr> (state s))"
      using assms(2) by simp
    from in_set_updateD [OF this] show ?thesis by auto
  qed
qed

lemma get_state_inv:
  "dirty_has_delta (state s) \<Longrightarrow> dirty_has_delta (state (snd (get_state h s collab)))"
  unfolding dirty_has_delta_def
  using get_state_entries [of h s collab "fst (get_state h s collab)" "snd (get_state h s collab)"]
  by fastforce

lemma set_delta_nonempty: "\<not> tracker_empty (set_delta api t d) \<and> dirty (set_delta api t d)"
  by (simp add: set_delta_def tracker_empty_def Let_def split: option.splits)

lemma simple_merge_inv:
  "dirty_has_delta (state s) \<Longrightarrow> dirty_has_delta (state (snd (simple_merge api h s collab d)))"
proof -
  assume inv: "dirty_has_delta (state s)"
  obtain r s1 where g: "get_state h s collab = (r, s1)" by (cases "get_state h s collab")
  have i1: "dirty_has_delta (state s1)" using get_state_inv [OF inv, of h collab] g by simp
  show ?thesis
  proof (cases r)
    case (Inl e)
    then show ?thesis using g i1 by (simp add: simple_merge_def)
  next
    case (Inr t)
    have "dirty_has_delta (AList.update (name collab) (set_delta api t d) (state s1))"
      using i1 set_delta_nonempty [of api t d]
      unfolding dirty_has_delta_def by (auto dest: in_set_updateD)
    then show ?thesis using g i1 Inr by (simp add: simple_merge_def)
  qed
qed

lemma simple_clear_inv:
  "dirty_has_delta (state s) \<Longrightarrow> dirty_has_delta (state (simple_clear s collab))"
  unfolding dirty_has_delta_def simple_clear_def
  by (auto dest: in_set_deleteD)

lemma simple_get_checkpoint_snd:
  "snd (simple_get_checkpoint h s collab) = snd (get_state h s collab)"
  by (simp add: simple_get_checkpoint_def split: prod.splits sum.splits)

lemma flush_loop_Cons_cases:
  assumes "flush_loop h ((n, t) # ts) b w = (err, ts', b', w')"
  obtains
    (clean) r where "\<not> dirty t" "flush_loop h ts b w = (err, r, b', w')" "ts' = (n, t) # r"
  | (assertion) "dirty t" "tr_delta t = None" "err = Some AssertionError"
      "ts' = (n, t) # ts" "b' = b" "w' = w"
  | (raised) d e where "dirty t" "tr_delta t = Some d" "write_state h b n d = Inl e"
      "err = Some (Raised e)" "ts' = (n, t) # ts" "b' = b" "w' = w @ [(n, d)]"
  | (written) d b1 r where "dirty t" "tr_delta t = Some d" "write_state h b n d = Inr b1"
      "flush_loop h ts b1 (w @ [(n, d)]) = (err, r, b', w')"
      "ts' = (n, t\<lparr>dirty := False\<rparr>) # r"
proof (cases "dirty t")
  case False
  obtain e r b2 w2 where fl: "flush_loop h ts b w = (e, r, b2, w2)"
    by (cases "flush_loop h ts b w") auto
  show ?thesis using assms False fl by (intro clean [of r]) simp_all
next
  case True
  show ?thesis
  proof (cases "tr_delta t")
    case None
    show ?thesis using assms True None by (intro assertion) (simp_all add: tracker_delta_def)
  next
    case (Some d)
    show ?thesis
    proof (cases "write_state h b n d")
      case (Inl e)
      show ?thesis
        using assms True Some Inl by (intro raised [of d e]) (simp_all add: tracker_delta_def)
    next
      case (Inr b1)
      obtain e r b2 w2 where fl: "flush_loop h ts b1 (w @ [(n, d)]) = (e, r, b2, w2)"
        by (cases "flush_loop h ts b1 (w @ [(n, d)])") auto
      show ?thesis
        using assms True Some Inr fl
        by (intro written [of d b1 r]) (simp_all add: tracker_delta_def)
    qed
  qed
qed

lemma flush_loop_inv:
  "dirty_has_delta ts \<Longrightarrow> flush_loop h ts b w = (err, ts', b', w') \<Longrightarrow> dirty_has_delta ts'"
proof (induction ts arbitrary: b w err ts' b' w')
  case Nil
  then show ?case by simp
next
  case (Cons p ts)
  obtain n t where p: "p = (n, t)" by (cases p)
  have tl: "dirty_has_delta ts" using Cons.prems(1) by (simp add: dirty_has_delta_def)
  have hd: "dirty t \<longrightarrow> \<not> tracker_empty t"
    using Cons.prems(1) p by (simp add: dirty_has_delta_def)
  from Cons.prems(2) [unfolded p] show ?case
  proof (cases rule: flush_loop_Cons_cases)
    case (clean r)
    then show ?thesis using Cons.IH [OF tl clean(2)] by (simp add: dirty_has_delta_def)
  next
    case assertion
    then show ?thesis using Cons.prems(1) p by simp
  next
    case (raised d e)
    then show ?thesis using Cons.prems(1) p by simp
  next
    case (written d b1 r)
    then show ?thesis using Cons.IH [OF tl written(4)] by (simp add: dirty_has_delta_def)
  qed
qed

lemma flush_loop_no_assertion:
  "dirty_has_delta ts \<Longrightarrow> flush_loop h ts b w = (err, ts', b', w') \<Longrightarrow>
     err \<noteq> Some AssertionError"
proof (induction ts arbitrary: b w err ts' b' w')
  case Nil
  then show ?case by simp
next
  case (Cons p ts)
  obtain n t where p: "p = (n, t)" by (cases p)
  have tl: "dirty_has_delta ts" using Cons.prems(1) by (simp add: dirty_has_delta_def)
  have hd: "dirty t \<longrightarrow> tr_delta t \<noteq> None"
    using Cons.prems(1) p by (simp add: dirty_has_delta_def tracker_empty_def)
  from Cons.prems(2) [unfolded p] show ?case
  proof (cases rule: flush_loop_Cons_cases)
    case (clean r)
    then show ?thesis using Cons.IH [OF tl clean(2)] by simp
  next
    case assertion
    then show ?thesis using hd by simp
  next
    case (raised d e)
    then show ?thesis by simp
  next
    case (written d b1 r)
    then show ?thesis using Cons.IH [OF tl written(4)] by simp
  qed
qed

lemma simple_flush_inv:
  "dirty_has_delta (state s) \<Longrightarrow> dirty_has_delta (state (snd (simple_flush h s collab)))"
  using flush_loop_inv [of "state s" h "backing s" "hook_writes s"]
  by (auto simp: simple_flush_def split: prod.splits)

lemma simple_gfst_loop_inv:
  "dirty_has_delta (state s) \<Longrightarrow>
     dirty_has_delta (state (snd (simple_gfst_loop api h st cs s ret)))"
proof (induction cs arbitrary: s ret)
  case Nil
  then show ?case by simp
next
  case (Cons c cs)
  obtain r s1 where g: "get_state h s c = (r, s1)" by (cases "get_state h s c")
  have i1: "dirty_has_delta (state s1)" using get_state_inv [OF Cons.prems, of h c] g by simp
  show ?case
    using g i1 Cons.IH [OF i1]
    by (auto simp: Let_def split: sum.splits)
qed

lemma reachable_inv: "reachable api h s \<Longrightarrow> dirty_has_delta (state s)"
proof (induction rule: reachable.induct)
  case (r_init b)
  show ?case by (simp add: simple_init_def dirty_has_delta_def)
next
  case (r_get_checkpoint s collab)
  then show ?case by (simp add: simple_get_checkpoint_snd get_state_inv)
next
  case (r_clear s collab)
  then show ?case by (simp add: simple_clear_inv)
next
  case (r_merge s collab delta)
  then show ?case by (simp add: simple_merge_inv)
next
  case (r_flush s collab)
  then show ?case by (simp add: simple_flush_inv)
next
  case (r_get_for_signal_type s collabs signal_type)
  then show ?case by (simp add: simple_get_for_signal_type_def simple_gfst_loop_inv)
qed

text \<open>
  C10.  In every store that the operations of the in-memory strategy can reach, a dirty
  tracker has an accumulated delta, so the assertion in \<open>flush\<close> never fails.
\<close>

theorem dirty_tracker_has_delta:
  "reachable api h s \<Longrightarrow>
     (\<forall>(n, t) \<in> set (state s). dirty t \<longrightarrow> \<not> tracker_empty t)
     \<and> fst (simple_flush h s collab) \<noteq> Some AssertionError"
proof -
  assume "reachable api h s"
  then have inv: "dirty_has_delta (state s)" by (rule reachable_inv)
  obtain err ts' b' w' where
    f: "flush_loop h (state s) (backing s) (hook_writes s) = (err, ts', b', w')"
    by (cases "flush_loop h (state s) (backing s) (hook_writes s)") auto
  have "err \<noteq> Some AssertionError" using inv f by (rule flush_loop_no_assertion)
  then have "fst (simple_flush h s collab) \<noteq> Some AssertionError"
    using f by (simp add: simple_flush_def)
  then show ?thesis using inv by (simp add: dirty_has_delta_def)
qed

theorem dirty_tracker_has_delta_witness:
  "reachable overwrite_api dict_hooks
     (snd (simple_merge overwrite_api dict_hooks (simple_init []) collab_a delta_1))
   \<and> state (snd (simple_merge overwrite_api dict_hooks (simple_init []) collab_a delta_1))
       = [(''a'', \<lparr>tr_delta = Some \<lparr>updates = [(''k1'', Some 1)], checkpoint = Some 100\<rparr>,
                  dirty = True\<rparr>)]
   \<and> \<not> tracker_empty
          \<lparr>tr_delta = Some \<lparr>updates = [(''k1'', Some (1::nat))], checkpoint = Some 100\<rparr>,
           dirty = True\<rparr>
   \<and> fst (simple_flush dict_hooks
            (snd (simple_merge overwrite_api dict_hooks (simple_init []) collab_a delta_1))
            collab_a) \<noteq> Some AssertionError"
proof -
  have r: "reachable overwrite_api dict_hooks
     (snd (simple_merge overwrite_api dict_hooks (simple_init []) collab_a delta_1))"
    by (rule r_merge) (rule r_init)
  have st: "state (snd (simple_merge overwrite_api dict_hooks (simple_init []) collab_a delta_1))
       = [(''a'', \<lparr>tr_delta = Some \<lparr>updates = [(''k1'', Some 1)], checkpoint = Some 100\<rparr>,
                  dirty = True\<rparr>)]"
    by (simp add: simple_merge_def get_state_def simple_init_def dict_hooks_def collab_a_def
        delta_1_def set_delta_def overwrite_api_def overwrite_merge_def tracker_checkpoint_def
        Let_def)
  show ?thesis
    using r st dirty_tracker_has_delta [OF r, of collab_a] by simp
qed

section \<open>Flushing the in-memory store\<close>

lemma clean_tracker_id: "\<not> dirty t \<Longrightarrow> t\<lparr>dirty := False\<rparr> = t"
  by (cases t) simp



lemma flush_loop_writes:
  "flush_loop h ts b w = (err, ts', b', w') \<Longrightarrow> \<exists>k. w' = w @ take k (pending_writes ts)"
proof (induction ts arbitrary: b w err ts' b' w')
  case Nil
  then show ?case by simp
next
  case (Cons p ts)
  obtain n t where p: "p = (n, t)" by (cases p)
  from Cons.prems [unfolded p] show ?case
  proof (cases rule: flush_loop_Cons_cases)
    case (clean r)
    then show ?thesis using Cons.IH [OF clean(2)] p by simp
  next
    case assertion
    then have "w' = w @ take 0 (pending_writes (p # ts))" by simp
    then show ?thesis by blast
  next
    case (raised d e)
    then have "w' = w @ take 1 (pending_writes (p # ts))" using p by simp
    then show ?thesis by blast
  next
    case (written d b1 r)
    from Cons.IH [OF written(4)] obtain k where
      "w' = (w @ [(n, d)]) @ take k (pending_writes ts)" by blast
    then have "w' = w @ take (Suc k) (pending_writes (p # ts))" using written p by simp
    then show ?thesis by blast
  qed
qed

lemma flush_loop_clean:
  "(\<forall>(n, t) \<in> set ts. \<not> dirty t) \<Longrightarrow> flush_loop h ts b w = (None, ts, b, w)"
proof (induction ts)
  case Nil
  show ?case by simp
next
  case (Cons p ts)
  obtain n t where p: "p = (n, t)" by (cases p)
  show ?case using Cons p by simp
qed

lemma pending_writes_dirty:
  "(n, d) \<in> set (pending_writes ts) \<Longrightarrow> \<exists>t. (n, t) \<in> set ts \<and> dirty t \<and> tr_delta t = Some d"
proof (induction ts)
  case Nil
  then show ?case by simp
next
  case (Cons p ts)
  obtain m t where p: "p = (m, t)" by (cases p)
  show ?case
  proof (cases "(n, d) \<in> set (pending_writes ts)")
    case True
    then show ?thesis using Cons.IH by auto
  next
    case False
    have "dirty t \<and> tr_delta t = Some d \<and> m = n"
    proof (cases "dirty t")
      case dt: True
      show ?thesis
      proof (cases "tr_delta t")
        case None
        then show ?thesis using Cons.prems p False dt by simp
      next
        case (Some d')
        then show ?thesis using Cons.prems p False dt by simp
      qed
    next
      case dt: False
      then show ?thesis using Cons.prems p False by simp
    qed
    then show ?thesis using p by auto
  qed
qed





section \<open>Evaluating the sample stores\<close>

lemmas sample_defs =
  collab_a_def collab_b_def delta_1_def delta_2_def delta_3_def delta_4_def delta_none_def
  overwrite_api_def tombstone_api_def overwrite_merge_def tombstone_merge_def plain_convert_def
  dict_hooks_def

lemmas simple_defs =
  simple_init_def get_state_def simple_get_checkpoint_def simple_clear_def simple_merge_def
  simple_flush_def simple_get_for_signal_type_def set_delta_def tracker_checkpoint_def
  tracker_delta_def tracker_empty_def dict_get_def Let_def

lemmas dbm_defs =
  db_init_def db_items_def db_get_def db_set_def db_exists_def db_drop_def checkpoint_ns_def
  dict_of_items_def dbm_get_for_signal_type_def dbm_clear_def dbm_exists_def dbm_flush_def
  dbm_merge_def dbm_get_checkpoint_def dict_get_def Let_def

lemma store_flushed_run:
  "snd (simple_flush dict_hooks
          (snd (simple_merge overwrite_api dict_hooks (simple_init []) collab_a delta_1))
          collab_a) = store_flushed"
  by (simp add: store_flushed_def simple_defs sample_defs)

lemma db_flushed_get:
  "db_get db_flushed ''a_checkpoint'' ''checkpoint'' = Some 100
   \<and> db_get db_flushed ''a_checkpoint'' ''_checkpoint'' = Some 100
   \<and> db_items db_flushed ''a'' = [(''k1'', Some 1)]
   \<and> db_items db_flushed ''a_checkpoint''
       = [(''_checkpoint'', Some 100), (''checkpoint'', Some 100)]"
  by (simp add: db_flushed_def dbm_defs sample_defs)


section \<open>Flush without pending merges\<close>

lemma db_items_flush_other:
  "ns \<noteq> checkpoint_ns collab \<Longrightarrow> db_items (dbm_flush S collab) ns = db_items S ns"
  by (simp add: dbm_flush_def db_items_set)

text \<open>
  C4 (as the code has it).  In the in-memory store a flush calls \<^verbatim>\<open>_write_state\<close> only for
  dirty trackers, and changes nothing at all when no tracker is dirty.  In the persistent
  store \<open>flush\<close> always makes exactly one write, of the staged checkpoint to the committed
  key; it leaves every other namespace as it is, and when the staged checkpoint is the
  committed one (nothing is pending) every value that can be read is unchanged.
\<close>

theorem flush_without_pending_merges:
  "((\<forall>(n, t) \<in> set (state s). \<not> dirty t) \<longrightarrow> simple_flush h s collab = (None, s))
   \<and> (\<forall>(n, d) \<in> set (drop (length (hook_writes s))
                         (hook_writes (snd (simple_flush h s collab)))).
         \<exists>t. (n, t) \<in> set (state s) \<and> dirty t \<and> tr_delta t = Some d)
   \<and> db_log (dbm_flush S collab)
       = db_log S @ [SetKey (checkpoint_ns collab) ''checkpoint''
                       (db_get S (checkpoint_ns collab) ''_checkpoint'')]
   \<and> (\<forall>ns. ns \<noteq> checkpoint_ns collab \<longrightarrow> db_items (dbm_flush S collab) ns = db_items S ns)
   \<and> (db_get S (checkpoint_ns collab) ''_checkpoint'' = dbm_get_checkpoint S collab \<longrightarrow>
        (\<forall>ns k. db_get (dbm_flush S collab) ns k = db_get S ns k))"
proof (intro conjI)
  show "(\<forall>(n, t) \<in> set (state s). \<not> dirty t) \<longrightarrow> simple_flush h s collab = (None, s)"
  proof
    assume "\<forall>(n, t) \<in> set (state s). \<not> dirty t"
    then have "flush_loop h (state s) (backing s) (hook_writes s)
                 = (None, state s, backing s, hook_writes s)"
      by (rule flush_loop_clean)
    then show "simple_flush h s collab = (None, s)" by (simp add: simple_flush_def)
  qed
next
  obtain err ts' b' w' where
    f: "flush_loop h (state s) (backing s) (hook_writes s) = (err, ts', b', w')"
    by (cases "flush_loop h (state s) (backing s) (hook_writes s)") auto
  from flush_loop_writes [OF f] obtain k where
    "w' = hook_writes s @ take k (pending_writes (state s))" by blast
  then have "set (drop (length (hook_writes s)) (hook_writes (snd (simple_flush h s collab))))
               \<subseteq> set (pending_writes (state s))"
    using f by (auto simp: simple_flush_def dest: in_set_takeD)
  then show "\<forall>(n, d) \<in> set (drop (length (hook_writes s))
                         (hook_writes (snd (simple_flush h s collab)))).
         \<exists>t. (n, t) \<in> set (state s) \<and> dirty t \<and> tr_delta t = Some d"
    using pending_writes_dirty [of _ _ "state s"] by blast
next
  show "db_log (dbm_flush S collab)
       = db_log S @ [SetKey (checkpoint_ns collab) ''checkpoint''
                       (db_get S (checkpoint_ns collab) ''_checkpoint'')]"
    by (simp add: dbm_flush_def db_log_set)
next
  show "\<forall>ns. ns \<noteq> checkpoint_ns collab \<longrightarrow> db_items (dbm_flush S collab) ns = db_items S ns"
    by (simp add: db_items_flush_other)
next
  show "db_get S (checkpoint_ns collab) ''_checkpoint'' = dbm_get_checkpoint S collab \<longrightarrow>
        (\<forall>ns k. db_get (dbm_flush S collab) ns k = db_get S ns k)"
    by (simp add: dbm_flush_def dbm_get_checkpoint_def db_get_set)
qed

theorem flush_without_pending_merges_witness:
  "map (\<lambda>(n, t). dirty t) (state store_flushed) = [False]
   \<and> simple_flush dict_hooks store_flushed collab_a = (None, store_flushed)
   \<and> (''a'', delta_1) \<in> set (drop (length (hook_writes store_ab))
                                (hook_writes (snd (simple_flush dict_hooks store_ab collab_b))))
   \<and> (\<exists>t. (''a'', t) \<in> set (state store_ab) \<and> dirty t \<and> tr_delta t = Some delta_1)
   \<and> ''a'' \<noteq> checkpoint_ns collab_a
   \<and> db_items (dbm_flush db_flushed collab_a) ''a'' = [(''k1'', Some 1)]
   \<and> db_get db_flushed (checkpoint_ns collab_a) ''_checkpoint''
       = dbm_get_checkpoint db_flushed collab_a
   \<and> dbm_get_checkpoint (dbm_flush db_flushed collab_a) collab_a = Some 100"
proof -
  have h1: "\<forall>(n, t) \<in> set (state store_flushed). \<not> dirty t"
    by (simp add: store_flushed_def)
  have h2: "(''a'', delta_1) \<in> set (drop (length (hook_writes store_ab))
                                (hook_writes (snd (simple_flush dict_hooks store_ab collab_b))))"
    by (simp add: store_ab_def simple_flush_def tracker_delta_def dict_hooks_def)
  have h3: "''a'' \<noteq> checkpoint_ns collab_a"
    by (simp add: checkpoint_ns_def collab_a_def)
  have h4: "db_get db_flushed (checkpoint_ns collab_a) ''_checkpoint''
       = dbm_get_checkpoint db_flushed collab_a"
    using db_flushed_get by (simp add: dbm_get_checkpoint_def checkpoint_ns_def collab_a_def)
  have c: "dbm_get_checkpoint db_flushed collab_a = Some 100"
    using db_flushed_get by (simp add: dbm_get_checkpoint_def checkpoint_ns_def collab_a_def)
  note clean = flush_without_pending_merges
    [where h = dict_hooks and s = store_flushed and collab = collab_a and S = db_flushed]
  note pending = flush_without_pending_merges
    [where h = dict_hooks and s = store_ab and collab = collab_b and S = db_flushed]
  have a: "simple_flush dict_hooks store_flushed collab_a = (None, store_flushed)"
    using clean h1 by blast
  have b: "db_items (dbm_flush db_flushed collab_a) ''a'' = db_items db_flushed ''a''"
    using clean h3 by blast
  have d: "dbm_get_checkpoint (dbm_flush db_flushed collab_a) collab_a
             = dbm_get_checkpoint db_flushed collab_a"
    using clean h4 by (simp add: dbm_get_checkpoint_def)
  have "\<forall>(n, d) \<in> set (drop (length (hook_writes store_ab))
                         (hook_writes (snd (simple_flush dict_hooks store_ab collab_b)))).
         \<exists>t. (n, t) \<in> set (state store_ab) \<and> dirty t \<and> tr_delta t = Some d"
    using pending by blast
  then have e: "\<exists>t. (''a'', t) \<in> set (state store_ab) \<and> dirty t \<and> tr_delta t = Some delta_1"
    using h2 by fastforce
  have h0: "map (\<lambda>(n, t). dirty t) (state store_flushed) = [False]"
    by (simp add: store_flushed_def)
  show ?thesis
    using h0 a h2 e h3 b h4 d c db_flushed_get by simp
qed

text \<open>
  The persistent \<open>flush\<close> writes the committed key even when nothing was ever merged, and
  again when everything has been flushed already.
\<close>

theorem dbm_flush_always_writes_counterexample:
  "db_log (dbm_flush (db_init :: nat DBMStorage) collab_a)
     = [SetKey ''a_checkpoint'' ''checkpoint'' None]
   \<and> \<not> db_exists (db_init :: nat DBMStorage) ''a_checkpoint''
   \<and> db_exists (dbm_flush (db_init :: nat DBMStorage) collab_a) ''a_checkpoint''
   \<and> db_log (dbm_flush db_flushed collab_a)
       = db_log db_flushed @ [SetKey ''a_checkpoint'' ''checkpoint'' (Some 100)]"
  by (simp add: db_flushed_def dbm_defs sample_defs)

section \<open>The no-op merge\<close>

lemma get_state_untracked_clean:
  "map_of (state s) (name collab) = None \<Longrightarrow> get_state h s collab = (Inr t, s1) \<Longrightarrow> \<not> dirty t"
  by (auto simp: get_state_def Let_def split: sum.splits)

text \<open>
  C3.  A merge of a delta without updates whose checkpoint is absent or is the currently
  known one does nothing: in the in-memory store the result is the store as \<open>_get_state\<close>
  leaves it (unchanged if the collaboration was tracked, with a clean freshly loaded tracker
  otherwise), the tracker and the reported checkpoint are the same, and neither the backing
  store nor the log of hook writes changes; the persistent store is returned as it was.
\<close>

theorem noop_merge_changes_nothing:
  "(get_state h s collab = (Inr t, s') \<and> length (updates delta) = 0
      \<and> (checkpoint delta = None \<or> checkpoint delta = tracker_checkpoint t) \<longrightarrow>
        simple_merge api h s collab delta = (None, s')
        \<and> map_of (state s') (name collab) = Some t
        \<and> (\<forall>t0. map_of (state s) (name collab) = Some t0 \<longrightarrow> t = t0 \<and> s' = s)
        \<and> (map_of (state s) (name collab) = None \<longrightarrow> \<not> dirty t)
        \<and> simple_get_checkpoint h s' collab = (Inr (tracker_checkpoint t), s')
        \<and> simple_get_checkpoint h s collab = (Inr (tracker_checkpoint t), s')
        \<and> backing s' = backing s \<and> hook_writes s' = hook_writes s)
   \<and> (length (updates delta) = 0
        \<and> (checkpoint delta = None \<or> checkpoint delta = dbm_get_checkpoint S collab) \<longrightarrow>
        dbm_merge S collab delta = S)"
proof (rule conjI; rule impI)
  assume a: "get_state h s collab = (Inr t, s') \<and> length (updates delta) = 0
      \<and> (checkpoint delta = None \<or> checkpoint delta = tracker_checkpoint t)"
  then have g: "get_state h s collab = (Inr t, s')" by simp
  have lk: "map_of (state s') (name collab) = Some t" using g by (rule get_state_lookup)
  have fr: "backing s' = backing s \<and> hook_writes s' = hook_writes s"
    using get_state_frame [of h s collab] g by simp
  have m: "simple_merge api h s collab delta = (None, s')"
    using a by (auto simp: simple_merge_def)
  have tr: "\<forall>t0. map_of (state s) (name collab) = Some t0 \<longrightarrow> t = t0 \<and> s' = s"
    using g by (auto simp: get_state_tracked)
  have cl: "map_of (state s) (name collab) = None \<longrightarrow> \<not> dirty t"
    using g by (auto dest: get_state_untracked_clean)
  have c1: "simple_get_checkpoint h s' collab = (Inr (tracker_checkpoint t), s')"
    using lk by (simp add: simple_get_checkpoint_def get_state_tracked)
  have c0: "simple_get_checkpoint h s collab = (Inr (tracker_checkpoint t), s')"
    using g by (simp add: simple_get_checkpoint_def)
  show "simple_merge api h s collab delta = (None, s')
        \<and> map_of (state s') (name collab) = Some t
        \<and> (\<forall>t0. map_of (state s) (name collab) = Some t0 \<longrightarrow> t = t0 \<and> s' = s)
        \<and> (map_of (state s) (name collab) = None \<longrightarrow> \<not> dirty t)
        \<and> simple_get_checkpoint h s' collab = (Inr (tracker_checkpoint t), s')
        \<and> simple_get_checkpoint h s collab = (Inr (tracker_checkpoint t), s')
        \<and> backing s' = backing s \<and> hook_writes s' = hook_writes s"
    using m lk tr cl c1 c0 fr by blast
next
  assume "length (updates delta) = 0
        \<and> (checkpoint delta = None \<or> checkpoint delta = dbm_get_checkpoint S collab)"
  then show "dbm_merge S collab delta = S"
    by (auto simp: dbm_merge_def dbm_get_checkpoint_def)
qed

theorem noop_merge_changes_nothing_witness:
  "get_state dict_hooks store_flushed collab_a
     = (Inr \<lparr>tr_delta = Some delta_1, dirty = False\<rparr>, store_flushed)
   \<and> length (updates delta_3) = 0
   \<and> checkpoint delta_3 = tracker_checkpoint \<lparr>tr_delta = Some delta_1, dirty = False\<rparr>
   \<and> simple_merge overwrite_api dict_hooks store_flushed collab_a delta_3 = (None, store_flushed)
   \<and> checkpoint delta_3 = dbm_get_checkpoint db_flushed collab_a
   \<and> dbm_merge db_flushed collab_a delta_3 = db_flushed
   \<and> map_of (state (simple_init [] :: (nat, nat FetchDelta pydict) SimpleFetchedStateStore))
         (name collab_a) = None
   \<and> simple_merge overwrite_api dict_hooks (simple_init []) collab_a delta_none
       = (None, \<lparr>state = [(''a'', \<lparr>tr_delta = None, dirty = False\<rparr>)],
                 backing = [], hook_writes = []\<rparr>)"
proof -
  have g: "get_state dict_hooks store_flushed collab_a
     = (Inr \<lparr>tr_delta = Some delta_1, dirty = False\<rparr>, store_flushed)"
    by (simp add: get_state_def store_flushed_def collab_a_def)
  have l: "length (updates delta_3) = 0" by (simp add: delta_3_def)
  have c: "checkpoint delta_3 = tracker_checkpoint \<lparr>tr_delta = Some delta_1, dirty = False\<rparr>"
    by (simp add: tracker_checkpoint_def delta_3_def delta_1_def)
  have dc: "checkpoint delta_3 = dbm_get_checkpoint db_flushed collab_a"
    using db_flushed_get
    by (simp add: dbm_get_checkpoint_def checkpoint_ns_def collab_a_def delta_3_def)
  note tracked = noop_merge_changes_nothing
    [where h = dict_hooks and s = store_flushed and collab = collab_a and delta = delta_3
       and t = "\<lparr>tr_delta = Some delta_1, dirty = False\<rparr>" and s' = store_flushed
       and api = overwrite_api and S = db_flushed]
  have m: "simple_merge overwrite_api dict_hooks store_flushed collab_a delta_3
             = (None, store_flushed)"
    using tracked g l c by blast
  have dm: "dbm_merge db_flushed collab_a delta_3 = db_flushed"
    using tracked l dc by blast
  have u: "map_of (state (simple_init [] :: (nat, nat FetchDelta pydict) SimpleFetchedStateStore))
         (name collab_a) = None"
    by (simp add: simple_init_def)
  have g0: "get_state dict_hooks (simple_init []) collab_a
     = (Inr \<lparr>tr_delta = (None :: nat FetchDelta option), dirty = False\<rparr>,
        \<lparr>state = [(''a'', \<lparr>tr_delta = None, dirty = False\<rparr>)],
                 backing = [], hook_writes = []\<rparr>)"
    by (simp add: get_state_def simple_init_def dict_hooks_def collab_a_def Let_def)
  have l0: "length (updates delta_none) = 0 \<and> checkpoint delta_none = None"
    by (simp add: delta_none_def)
  note untracked = noop_merge_changes_nothing
    [where h = dict_hooks and s = "simple_init []" and collab = collab_a and delta = delta_none
       and t = "\<lparr>tr_delta = None, dirty = False\<rparr>"
       and s' = "\<lparr>state = [(''a'', \<lparr>tr_delta = None, dirty = False\<rparr>)],
                 backing = [], hook_writes = []\<rparr>"
       and api = overwrite_api and S = db_flushed]
  have m0: "simple_merge overwrite_api dict_hooks (simple_init []) collab_a delta_none
       = (None, \<lparr>state = [(''a'', \<lparr>tr_delta = None, dirty = False\<rparr>)],
                 backing = [], hook_writes = []\<rparr>)"
    using untracked g0 l0 by blast
  show ?thesis
    using g l c m dc dm u m0 by blast
qed

section \<open>Clearing a collaboration\<close>

lemma db_items_drop:
  "db_items (db_drop S ns) ns' = (if ns' = ns then [] else db_items S ns')"
  by (simp add: db_drop_def db_items_def)

text \<open>
  C6 (as the code has it).  \<open>clear\<close> of the in-memory store removes the tracker of the
  collaboration and nothing else: the backing store behind the hooks is untouched, so the
  next access loads the snapshot again.  \<open>clear\<close> of the persistent store drops the data
  namespace and leaves every other namespace, in particular the staged and the committed
  checkpoint, as it was.
\<close>

theorem clear_discards_tracker_and_data:
  "map_of (state (simple_clear s collab)) (name collab) = None
   \<and> (\<forall>n. n \<noteq> name collab \<longrightarrow> map_of (state (simple_clear s collab)) n = map_of (state s) n)
   \<and> backing (simple_clear s collab) = backing s
   \<and> hook_writes (simple_clear s collab) = hook_writes s
   \<and> fst (get_state h (simple_clear s collab) collab)
       = (case read_state h (backing s) (name collab) of
            Inl e \<Rightarrow> Inl (Raised e)
          | Inr d \<Rightarrow> Inr \<lparr>tr_delta = d, dirty = False\<rparr>)
   \<and> \<not> dbm_exists (dbm_clear S collab) collab
   \<and> db_items (dbm_clear S collab) (name collab) = []
   \<and> (\<forall>ns. ns \<noteq> name collab \<longrightarrow> db_items (dbm_clear S collab) ns = db_items S ns)
   \<and> dbm_get_checkpoint (dbm_clear S collab) collab = dbm_get_checkpoint S collab
   \<and> db_get (dbm_clear S collab) (checkpoint_ns collab) ''_checkpoint''
       = db_get S (checkpoint_ns collab) ''_checkpoint''"
proof -
  have 1: "map_of (state (simple_clear s collab)) (name collab) = None"
    by (simp add: simple_clear_def delete_conv')
  have 2: "\<forall>n. n \<noteq> name collab \<longrightarrow> map_of (state (simple_clear s collab)) n = map_of (state s) n"
    by (simp add: simple_clear_def delete_conv')
  have 3: "backing (simple_clear s collab) = backing s
           \<and> hook_writes (simple_clear s collab) = hook_writes s"
    by (simp add: simple_clear_def)
  have 4: "fst (get_state h (simple_clear s collab) collab)
       = (case read_state h (backing s) (name collab) of
            Inl e \<Rightarrow> Inl (Raised e)
          | Inr d \<Rightarrow> Inr \<lparr>tr_delta = d, dirty = False\<rparr>)"
    using 1 3 by (simp add: get_state_def Let_def split: sum.splits)
  have 5: "\<not> dbm_exists (dbm_clear S collab) collab
           \<and> db_items (dbm_clear S collab) (name collab) = []"
    by (simp add: dbm_exists_def dbm_clear_def db_exists_def db_drop_def db_items_def)
  have 6: "\<forall>ns. ns \<noteq> name collab \<longrightarrow> db_items (dbm_clear S collab) ns = db_items S ns"
    by (simp add: dbm_clear_def db_items_drop)
  have ne: "checkpoint_ns collab \<noteq> name collab"
    using name_neq_checkpoint_ns [of collab] by simp
  have 7: "dbm_get_checkpoint (dbm_clear S collab) collab = dbm_get_checkpoint S collab
           \<and> db_get (dbm_clear S collab) (checkpoint_ns collab) ''_checkpoint''
               = db_get S (checkpoint_ns collab) ''_checkpoint''"
    using ne by (simp add: dbm_get_checkpoint_def dbm_clear_def db_get_drop)
  from 1 2 3 4 5 6 7 show ?thesis by blast
qed

theorem clear_discards_tracker_and_data_witness:
  "''b'' \<noteq> name collab_a
   \<and> map_of (state (simple_clear store_ab collab_a)) ''a'' = None
   \<and> map_of (state (simple_clear store_ab collab_a)) ''b''
       = Some \<lparr>tr_delta = None, dirty = False\<rparr>
   \<and> ''a_checkpoint'' \<noteq> name collab_a
   \<and> db_items (dbm_clear db_flushed collab_a) ''a'' = []
   \<and> db_items (dbm_clear db_flushed collab_a) ''a_checkpoint''
       = [(''_checkpoint'', Some 100), (''checkpoint'', Some 100)]
   \<and> dbm_get_checkpoint (dbm_clear db_flushed collab_a) collab_a = Some 100"
proof -
  note t = clear_discards_tracker_and_data
    [where s = store_ab and collab = collab_a and S = db_flushed and h = dict_hooks]
  have n1: "''b'' \<noteq> name collab_a" by (simp add: collab_a_def)
  have n2: "''a_checkpoint'' \<noteq> name collab_a" by (simp add: collab_a_def)
  have a: "map_of (state (simple_clear store_ab collab_a)) (name collab_a) = None"
    using t by blast
  have b: "map_of (state (simple_clear store_ab collab_a)) ''b'' = map_of (state store_ab) ''b''"
    using t n1 by blast
  have c: "db_items (dbm_clear db_flushed collab_a) (name collab_a) = []"
    using t by blast
  have d: "db_items (dbm_clear db_flushed collab_a) ''a_checkpoint''
             = db_items db_flushed ''a_checkpoint''"
    using t n2 by blast
  have e: "dbm_get_checkpoint (dbm_clear db_flushed collab_a) collab_a
             = dbm_get_checkpoint db_flushed collab_a"
    using t by blast
  have f: "dbm_get_checkpoint db_flushed collab_a = Some 100"
    using db_flushed_get by (simp add: dbm_get_checkpoint_def checkpoint_ns_def collab_a_def)
  show ?thesis
    using n1 n2 a b c d e f db_flushed_get by (simp add: store_ab_def collab_a_def)
qed

text \<open>
  After merge, flush and clear, the snapshot written by the hook is still in the backing
  store, and the in-memory store reports the old checkpoint and the old records again.
\<close>

theorem simple_clear_keeps_snapshot_counterexample:
  "snd (simple_flush dict_hooks
          (snd (simple_merge overwrite_api dict_hooks (simple_init []) collab_a delta_1))
          collab_a) = store_flushed
   \<and> backing (simple_clear store_flushed collab_a) = [(''a'', delta_1)]
   \<and> fst (simple_get_checkpoint dict_hooks (simple_clear store_flushed collab_a) collab_a)
       = Inr (Some 100)
   \<and> fst (simple_get_for_signal_type overwrite_api dict_hooks
             (simple_clear store_flushed collab_a) [collab_a] 0)
       = Inr [(''a'', [(''k1'', Some 1)])]"
proof -
  have 1: "snd (simple_flush dict_hooks
          (snd (simple_merge overwrite_api dict_hooks (simple_init []) collab_a delta_1))
          collab_a) = store_flushed"
    by (simp add: store_flushed_def simple_defs sample_defs)
  have 2: "backing (simple_clear store_flushed collab_a) = [(''a'', delta_1)]"
    by (simp add: store_flushed_def simple_clear_def)
  have 3: "fst (simple_get_checkpoint dict_hooks (simple_clear store_flushed collab_a) collab_a)
       = Inr (Some 100)"
    by (simp add: store_flushed_def simple_defs sample_defs)
  have 4: "fst (simple_get_for_signal_type overwrite_api dict_hooks
             (simple_clear store_flushed collab_a) [collab_a] 0)
       = Inr [(''a'', [(''k1'', Some 1)])]"
    by (simp add: store_flushed_def simple_defs sample_defs)
  from 1 2 3 4 show ?thesis by blast
qed

section \<open>Projection to one signal type\<close>

lemma collab_eta: "\<lparr>name = name c\<rparr> = (c :: CollaborationConfigBase)"
  by (cases c) simp

lemma collab_eqI: "name (c :: CollaborationConfigBase) = name c' \<Longrightarrow> c = c'"
  by (cases c, cases c') simp

lemma get_state_mono:
  "get_state h s collab = (r, s') \<Longrightarrow> map_of (state s) k = Some t \<Longrightarrow>
     map_of (state s') k = Some t"
  by (auto simp: get_state_def Let_def update_conv' split: option.splits sum.splits)

lemma simple_gfst_loop_mono:
  "simple_gfst_loop api h st cs s ret = (r, s') \<Longrightarrow> map_of (state s) k = Some t \<Longrightarrow>
     map_of (state s') k = Some t"
proof (induction cs arbitrary: s ret)
  case Nil
  then show ?case by simp
next
  case (Cons c cs)
  obtain r1 s1 where g: "get_state h s c = (r1, s1)" by (cases "get_state h s c")
  have m: "map_of (state s1) k = Some t" using get_state_mono [OF g Cons.prems(2)] .
  show ?case
  proof (cases r1)
    case (Inl e)
    then show ?thesis using Cons.prems(1) g m by simp
  next
    case (Inr t1)
    show ?thesis
      using Cons.prems(1) g Inr m Cons.IH [of s1 _, OF _ m]
      by (auto simp: Let_def tracker_delta_def tracker_empty_def split: if_splits option.splits)
  qed
qed

lemma dict_get_map_of_update:
  "map_of (AList.update k v al) n = (if n = k then Some v else map_of al n)"
  by (simp add: update_conv')

lemma simple_gfst_loop_lookup:
  "simple_gfst_loop api h st cs s ret = (Inr ret', s') \<Longrightarrow>
     map_of ret' n =
       (if \<exists>c \<in> set cs. name c = n \<and> simple_contribution api st s' c \<noteq> []
        then Some (simple_contribution api st s' \<lparr>name = n\<rparr>)
        else map_of ret n)"
proof (induction cs arbitrary: s ret)
  case Nil
  then show ?case by simp
next
  case (Cons c cs)
  obtain r1 s1 where g: "get_state h s c = (r1, s1)" by (cases "get_state h s c")
  show ?case
  proof (cases r1)
    case (Inl e)
    then show ?thesis using Cons.prems g by simp
  next
    case (Inr t)
    have lk1: "map_of (state s1) (name c) = Some t"
      using g Inr by (simp add: get_state_lookup)
    define by_signal where
      "by_signal = (case tr_delta t of None \<Rightarrow> []
                    | Some d \<Rightarrow> dict_get (naive_convert_to_signal_type api [st] c (updates d)) st [])"
    define ret1 where
      "ret1 = (if by_signal \<noteq> [] then AList.update (name c) by_signal ret else ret)"
    have rec: "simple_gfst_loop api h st cs s1 ret1 = (Inr ret', s')"
      using Cons.prems g Inr
      by (auto simp: ret1_def by_signal_def Let_def tracker_delta_def tracker_empty_def
          split: if_splits option.splits)
    have lk: "map_of (state s') (name c) = Some t"
      using simple_gfst_loop_mono [OF rec lk1] .
    have contrib: "simple_contribution api st s' c = by_signal"
      using lk by (simp add: simple_contribution_def by_signal_def)
    have ih: "map_of ret' n =
       (if \<exists>c \<in> set cs. name c = n \<and> simple_contribution api st s' c \<noteq> []
        then Some (simple_contribution api st s' \<lparr>name = n\<rparr>)
        else map_of ret1 n)"
      using Cons.IH [OF rec] .
    have r1: "map_of ret1 n = (if n = name c \<and> by_signal \<noteq> [] then Some by_signal else map_of ret n)"
      by (simp add: ret1_def dict_get_map_of_update)
    show ?thesis
      using ih r1 contrib by (auto simp: collab_eta)
  qed
qed

lemma dbm_gfst_loop_lookup:
  "map_of (dbm_gfst_loop api S st cs ret) n =
     (if \<exists>c \<in> set cs. name c = n \<and> dbm_contribution api st S c \<noteq> []
      then Some (dbm_contribution api st S \<lparr>name = n\<rparr>)
      else map_of ret n)"
proof (induction cs arbitrary: ret)
  case Nil
  then show ?case by simp
next
  case (Cons c cs)
  show ?case
    using Cons.IH [unfolded dbm_contribution_def]
    by (auto simp: Let_def dbm_contribution_def dict_get_map_of_update collab_eta)
qed

text \<open>
  C9.  In both stores the result of \<open>get_for_signal_type\<close> has no entry under the name of
  a collaboration that contributes no converted record of the requested signal type, and
  every entry it has is non-empty.
\<close>

theorem get_for_signal_type_omits_empty:
  "(simple_get_for_signal_type api h s collabs st = (Inr ret, s') \<longrightarrow>
      (simple_contribution api st s' collab = [] \<longrightarrow> map_of ret (name collab) = None)
      \<and> (\<forall>n b. map_of ret n = Some b \<longrightarrow> b \<noteq> []))
   \<and> (dbm_contribution api st S collab = [] \<longrightarrow>
        map_of (dbm_get_for_signal_type api S collabs st) (name collab) = None)
   \<and> (\<forall>n b. map_of (dbm_get_for_signal_type api S collabs st) n = Some b \<longrightarrow> b \<noteq> [])"
proof (intro conjI impI allI)
  assume a: "simple_get_for_signal_type api h s collabs st = (Inr ret, s')"
    and z: "simple_contribution api st s' collab = []"
  have "\<And>c. name c = name collab \<Longrightarrow> simple_contribution api st s' c = []"
    using z collab_eqI by blast
  then show "map_of ret (name collab) = None"
    using simple_gfst_loop_lookup [of api h st collabs s "[]" ret s' "name collab"] a
    by (auto simp: simple_get_for_signal_type_def)
next
  fix n b
  assume a: "simple_get_for_signal_type api h s collabs st = (Inr ret, s')"
    and m: "map_of ret n = Some b"
  show "b \<noteq> []"
    using simple_gfst_loop_lookup [of api h st collabs s "[]" ret s' n] a m
    by (auto simp: simple_get_for_signal_type_def collab_eta split: if_splits)
next
  assume z: "dbm_contribution api st S collab = []"
  have "\<And>c. name c = name collab \<Longrightarrow> dbm_contribution api st S c = []"
    using z collab_eqI by blast
  then show "map_of (dbm_get_for_signal_type api S collabs st) (name collab) = None"
    by (auto simp: dbm_get_for_signal_type_def dbm_gfst_loop_lookup)
next
  fix n b
  assume m: "map_of (dbm_get_for_signal_type api S collabs st) n = Some b"
  show "b \<noteq> []"
    using m
    by (auto simp: dbm_get_for_signal_type_def dbm_gfst_loop_lookup collab_eta split: if_splits)
qed


theorem get_for_signal_type_omits_empty_witness:
  "simple_get_for_signal_type overwrite_api dict_hooks store_ab [collab_a, collab_b] 0
     = (Inr [(''a'', [(''k1'', Some 1)])], store_ab)
   \<and> simple_contribution overwrite_api 0 store_ab collab_b = []
   \<and> map_of [(''a'', [(''k1'', Some (1::nat))])] (name collab_b) = None
   \<and> dbm_get_for_signal_type overwrite_api db_flushed [collab_a, collab_b] 0
       = [(''a'', [(''k1'', Some 1)])]
   \<and> dbm_contribution overwrite_api 0 db_flushed collab_b = []
   \<and> map_of (dbm_get_for_signal_type overwrite_api db_flushed [collab_a, collab_b] 0)
         (name collab_b) = None"
proof -
  have r: "simple_get_for_signal_type overwrite_api dict_hooks store_ab [collab_a, collab_b] 0
     = (Inr [(''a'', [(''k1'', Some 1)])], store_ab)"
    by (simp add: store_ab_def simple_defs sample_defs)
  have z: "simple_contribution overwrite_api 0 store_ab collab_b = []"
    by (simp add: simple_contribution_def store_ab_def collab_b_def)
  have items: "db_items db_flushed ''a'' = [(''k1'', Some 1)] \<and> db_items db_flushed ''b'' = []"
    by (simp add: db_flushed_def dbm_defs sample_defs)
  have dr: "dbm_get_for_signal_type overwrite_api db_flushed [collab_a, collab_b] 0
       = [(''a'', [(''k1'', Some 1)])]"
    using items
    by (simp add: dbm_get_for_signal_type_def dict_of_items_def dict_get_def Let_def sample_defs)
  have dz: "dbm_contribution overwrite_api 0 db_flushed collab_b = []"
    using items
    by (simp add: dbm_contribution_def dict_of_items_def dict_get_def sample_defs)
  note t = get_for_signal_type_omits_empty
    [where api = overwrite_api and h = dict_hooks and s = store_ab
       and collabs = "[collab_a, collab_b]" and st = 0
       and ret = "[(''a'', [(''k1'', Some 1)])]" and s' = store_ab and collab = collab_b
       and S = db_flushed]
  have a: "map_of [(''a'', [(''k1'', Some (1::nat))])] (name collab_b) = None"
    using t r z by blast
  have b: "map_of (dbm_get_for_signal_type overwrite_api db_flushed [collab_a, collab_b] 0)
         (name collab_b) = None"
    using t dz by blast
  show ?thesis using r z a dr dz b by blast
qed

section \<open>Accumulating merges in the tracker\<close>

lemma tracker_eta: "t\<lparr>tr_delta := x, dirty := y\<rparr> = \<lparr>tr_delta = x, dirty = y\<rparr>"
  by (cases t) simp

lemma set_delta_tracked:
  "tr_delta t = Some \<lparr>updates = U, checkpoint = cp\<rparr> \<Longrightarrow>
     set_delta api t d =
       \<lparr>tr_delta = Some \<lparr>updates = naive_fetch_merge api U (updates d),
                          checkpoint = checkpoint d\<rparr>,
        dirty = True\<rparr>"
  by (simp add: set_delta_def Let_def tracker_eta)

lemma set_delta_empty:
  "tr_delta t = None \<Longrightarrow>
     set_delta api t d =
       \<lparr>tr_delta = Some \<lparr>updates = naive_fetch_merge api [] (updates d),
                          checkpoint = checkpoint d\<rparr>,
        dirty = True\<rparr>"
  by (cases d) (simp add: set_delta_def Let_def tracker_eta)

lemma simple_merge_tracked:
  assumes "map_of (state s) (name collab) = Some t"
    and "\<not> (length (updates d) = 0
            \<and> (checkpoint d = None \<or> checkpoint d = tracker_checkpoint t))"
  shows "simple_merge api h s collab d
           = (None, s\<lparr>state := AList.update (name collab) (set_delta api t d) (state s)\<rparr>)"
  using assms by (auto simp: simple_merge_def get_state_tracked)

lemma simple_merge_tracked_lookup:
  assumes "map_of (state s) (name collab) = Some t"
    and "\<not> (length (updates d) = 0
            \<and> (checkpoint d = None \<or> checkpoint d = tracker_checkpoint t))"
  shows "map_of (state (snd (simple_merge api h s collab d))) (name collab)
           = Some (set_delta api t d)"
  using simple_merge_tracked [OF assms, of api h] by (simp add: update_conv')

lemma merges_accumulate:
  assumes "map_of (state s) (name collab) = Some t"
    and "tr_delta t = Some \<lparr>updates = U, checkpoint = cp\<rparr>"
    and "ds \<noteq> []" and "noop_free cp ds"
  shows "map_of (state (simple_run api h collab s (map Merge ds))) (name collab) =
           Some \<lparr>tr_delta = Some \<lparr>updates = foldl (naive_fetch_merge api) U (map updates ds),
                                   checkpoint = checkpoint (last ds)\<rparr>,
                 dirty = True\<rparr>"
  using assms
proof (induction ds arbitrary: s t U cp)
  case Nil
  then show ?case by simp
next
  case (Cons d ds)
  have cpt: "tracker_checkpoint t = cp"
    using Cons.prems(2) by (simp add: tracker_checkpoint_def)
  have nn: "\<not> (length (updates d) = 0
            \<and> (checkpoint d = None \<or> checkpoint d = tracker_checkpoint t))"
    using Cons.prems(4) cpt by simp
  define s1 where "s1 = snd (simple_merge api h s collab d)"
  define t1 where "t1 = set_delta api t d"
  have lk: "map_of (state s1) (name collab) = Some t1"
    unfolding s1_def t1_def using simple_merge_tracked_lookup [OF Cons.prems(1) nn, of api h] .
  have t1: "t1 = \<lparr>tr_delta = Some \<lparr>updates = naive_fetch_merge api U (updates d),
                          checkpoint = checkpoint d\<rparr>, dirty = True\<rparr>"
    unfolding t1_def using Cons.prems(2) by (rule set_delta_tracked)
  have run: "simple_run api h collab s (map Merge (d # ds))
               = simple_run api h collab s1 (map Merge ds)"
    by (simp add: simple_run_def s1_def)
  show ?case
  proof (cases "ds = []")
    case True
    then show ?thesis using lk t1 run by (simp add: simple_run_def)
  next
    case False
    have nf: "noop_free (checkpoint d) ds" using Cons.prems(4) by simp
    have td: "tr_delta t1 = Some \<lparr>updates = naive_fetch_merge api U (updates d),
                          checkpoint = checkpoint d\<rparr>"
      using t1 by simp
    show ?thesis
      using Cons.IH [OF lk td False nf] run False by simp
  qed
qed

text \<open>
  C2 (as the code has it).  For a collaboration that is not tracked yet and has no snapshot
  to load, after merging a non-empty list of deltas none of which is skipped by the no-op
  test, the tracker is dirty, its updates are the left fold of \<^verbatim>\<open>naive_fetch_merge\<close> over the
  updates of the deltas starting from the empty dict, and its checkpoint is that of the last
  delta.
\<close>

theorem merges_fold_from_empty:
  assumes "map_of (state s) (name collab) = None"
    and "read_state h (backing s) (name collab) = Inr None"
    and "ds \<noteq> []" and "noop_free None ds"
  shows "map_of (state (simple_run api h collab s (map Merge ds))) (name collab) =
           Some \<lparr>tr_delta = Some \<lparr>updates = foldl (naive_fetch_merge api) [] (map updates ds),
                                   checkpoint = checkpoint (last ds)\<rparr>,
                 dirty = True\<rparr>"
proof -
  obtain d rest where ds: "ds = d # rest" using assms(3) by (cases ds) auto
  define t0 :: "'a StateTracker" where "t0 = \<lparr>tr_delta = None, dirty = False\<rparr>"
  define s0 where "s0 = s\<lparr>state := AList.update (name collab) t0 (state s)\<rparr>"
  have g: "get_state h s collab = (Inr t0, s0)"
    using assms(1,2) by (simp add: get_state_def t0_def s0_def Let_def)
  have nn: "\<not> (length (updates d) = 0 \<and> (checkpoint d = None \<or> checkpoint d = None))"
    using assms(4) ds by simp
  define t1 where "t1 = set_delta api t0 d"
  define s1 where "s1 = snd (simple_merge api h s collab d)"
  have s1: "s1 = s0\<lparr>state := AList.update (name collab) t1 (state s0)\<rparr>"
    using g nn by (auto simp: s1_def t1_def simple_merge_def tracker_checkpoint_def t0_def)
  have lk: "map_of (state s1) (name collab) = Some t1"
    by (simp add: s1 update_conv')
  have t1: "t1 = \<lparr>tr_delta = Some \<lparr>updates = naive_fetch_merge api [] (updates d),
                          checkpoint = checkpoint d\<rparr>, dirty = True\<rparr>"
    unfolding t1_def by (rule set_delta_empty) (simp add: t0_def)
  have run: "simple_run api h collab s (map Merge ds) = simple_run api h collab s1 (map Merge rest)"
    by (simp add: simple_run_def s1_def ds)
  show ?thesis
  proof (cases "rest = []")
    case True
    then show ?thesis using lk t1 run ds by (simp add: simple_run_def)
  next
    case False
    have nf: "noop_free (checkpoint d) rest" using assms(4) ds by simp
    have td: "tr_delta t1 = Some \<lparr>updates = naive_fetch_merge api [] (updates d),
                          checkpoint = checkpoint d\<rparr>"
      using t1 by simp
    show ?thesis
      using merges_accumulate [OF lk td False nf, of api h] run ds False by simp
  qed
qed


theorem merges_fold_from_empty_witness:
  "map_of (state (simple_init [] :: (nat, nat FetchDelta pydict) SimpleFetchedStateStore))
     (name collab_a) = None
   \<and> read_state dict_hooks
        (backing (simple_init [] :: (nat, nat FetchDelta pydict) SimpleFetchedStateStore))
        (name collab_a) = Inr None
   \<and> noop_free None [delta_1, delta_2, delta_3]
   \<and> map_of (state (simple_run overwrite_api dict_hooks collab_a (simple_init [])
                      (map Merge [delta_1, delta_2, delta_3]))) (name collab_a)
       = Some \<lparr>tr_delta = Some \<lparr>updates = [(''k1'', None)], checkpoint = Some 100\<rparr>,
               dirty = True\<rparr>"
proof -
  have h1: "map_of (state (simple_init [] :: (nat, nat FetchDelta pydict) SimpleFetchedStateStore))
     (name collab_a) = None"
    by (simp add: simple_init_def)
  have h2: "read_state dict_hooks
        (backing (simple_init [] :: (nat, nat FetchDelta pydict) SimpleFetchedStateStore))
        (name collab_a) = Inr None"
    by (simp add: simple_init_def dict_hooks_def)
  have h3: "[delta_1, delta_2, delta_3] \<noteq> []" by simp
  have h4: "noop_free None [delta_1, delta_2, delta_3]"
    by (simp add: delta_1_def delta_2_def delta_3_def)
  have f: "foldl (naive_fetch_merge overwrite_api) [] (map updates [delta_1, delta_2, delta_3])
             = [(''k1'', None)]"
    by (simp add: sample_defs)
  show ?thesis
    using h1 h2 h4 f merges_fold_from_empty [OF h1 h2 h3 h4, of overwrite_api]
    by (simp add: delta_3_def)
qed

text \<open>
  The statement fails without the two conditions: a delta without updates and without
  checkpoint is skipped, so the checkpoint stays that of the delta before it; and when the
  read hook finds a snapshot, the fold starts from the updates of the snapshot.
\<close>

theorem merges_fold_counterexample:
  "map_of (state (simple_run overwrite_api dict_hooks collab_a (simple_init [])
                    (map Merge [delta_1, delta_none]))) (name collab_a)
     = Some \<lparr>tr_delta = Some \<lparr>updates = [(''k1'', Some 1)], checkpoint = Some 100\<rparr>,
             dirty = True\<rparr>
   \<and> checkpoint (last [delta_1, delta_none]) = None
   \<and> map_of (state (simple_run overwrite_api dict_hooks collab_a (simple_init [(''a'', delta_1)])
                      (map Merge [delta_4]))) (name collab_a)
       = Some \<lparr>tr_delta = Some \<lparr>updates = [(''k1'', Some 1), (''k2'', Some 2)],
                                 checkpoint = Some 300\<rparr>,
               dirty = True\<rparr>
   \<and> foldl (naive_fetch_merge overwrite_api) [] (map updates [delta_4]) = [(''k2'', Some 2)]"
proof -
  have 1: "map_of (state (simple_run overwrite_api dict_hooks collab_a (simple_init [])
                    (map Merge [delta_1, delta_none]))) (name collab_a)
     = Some \<lparr>tr_delta = Some \<lparr>updates = [(''k1'', Some 1)], checkpoint = Some 100\<rparr>,
             dirty = True\<rparr>"
    by (simp add: simple_run_def simple_defs sample_defs)
  have 2: "checkpoint (last [delta_1, delta_none]) = None"
    by (simp add: delta_none_def)
  have 3: "map_of (state (simple_run overwrite_api dict_hooks collab_a (simple_init [(''a'', delta_1)])
                      (map Merge [delta_4]))) (name collab_a)
       = Some \<lparr>tr_delta = Some \<lparr>updates = [(''k1'', Some 1), (''k2'', Some 2)],
                                 checkpoint = Some 300\<rparr>,
               dirty = True\<rparr>"
    by (simp add: simple_run_def simple_defs sample_defs)
  have 4: "foldl (naive_fetch_merge overwrite_api) [] (map updates [delta_4]) = [(''k2'', Some 2)]"
    by (simp add: sample_defs)
  from 1 2 3 4 show ?thesis by blast
qed

section \<open>The two strategies side by side\<close>

lemma update_fresh: "k \<notin> fst ` set al \<Longrightarrow> AList.update k v al = al @ [(k, v)]"
  by (induction al) auto

lemma foldl_update_distinct:
  "distinct (map fst (acc @ xs)) \<Longrightarrow>
     foldl (\<lambda>a (k, v). AList.update k v a) acc xs = acc @ xs"
proof (induction xs arbitrary: acc)
  case Nil
  then show ?case by simp
next
  case (Cons x xs)
  obtain k v where x: "x = (k, v)" by (cases x)
  have fresh: "k \<notin> fst ` set acc" using Cons.prems x by auto
  have d: "distinct (map fst ((acc @ [(k, v)]) @ xs))" using Cons.prems x by simp
  show ?case
    using Cons.IH [OF d] x by (simp add: update_fresh [OF fresh])
qed

lemma dict_of_items_distinct: "distinct (map fst xs) \<Longrightarrow> dict_of_items xs = xs"
  using foldl_update_distinct [of "[]" xs] by (simp add: dict_of_items_def)

lemma distinct_foldl_update:
  "distinct (map fst acc) \<Longrightarrow>
     distinct (map fst (foldl (\<lambda>a (k, v). AList.update k v a) acc xs))"
proof (induction xs arbitrary: acc)
  case Nil
  then show ?case by simp
next
  case (Cons x xs)
  obtain k v where x: "x = (k, v)" by (cases x)
  show ?case using Cons.IH [of "AList.update k v acc"] Cons.prems x
    by (simp add: distinct_update)
qed

lemma stores_agree_init: "stores_agree collab b (simple_init b) db_init"
  by (simp add: stores_agree_def simple_init_def db_init_def db_items_def db_get_def dict_get_def)

lemma dbm_merge_items:
  "updates d \<noteq> [] \<Longrightarrow>
     db_items (dbm_merge S collab d) (name collab)
       = overwrite_merge (db_items S (name collab)) (updates d)
     \<and> db_get (dbm_merge S collab d) (checkpoint_ns collab) ''_checkpoint'' = checkpoint d"
  using name_neq_checkpoint_ns [of collab]
  by (simp add: dbm_merge_def Let_def db_items_set db_items_set_all db_get_set overwrite_merge_def)

lemma stores_agree_merge:
  fixes s :: "('a, 'b) SimpleFetchedStateStore"
  assumes agree: "stores_agree collab b s S"
    and fresh: "read_state h b (name collab) = Inr None"
    and ow: "\<forall>old new. naive_fetch_merge api old new = overwrite_merge old new"
    and ne: "updates d \<noteq> []"
  shows "stores_agree collab b (snd (simple_merge api h s collab d)) (dbm_merge S collab d)
         \<and> map_of (state (snd (simple_merge api h s collab d))) (name collab) \<noteq> None"
proof (cases "map_of (state s) (name collab)")
  case None
  then have st: "state s = []" and bk: "backing s = b"
    and it: "db_items S (name collab) = []"
    using agree by (simp_all add: stores_agree_def)
  define t0 :: "'a StateTracker" where "t0 = \<lparr>tr_delta = None, dirty = False\<rparr>"
  have g: "get_state h s collab = (Inr t0, s\<lparr>state := [(name collab, t0)]\<rparr>)"
    using st bk fresh by (simp add: get_state_def t0_def Let_def)
  have sd: "set_delta api t0 d =
       \<lparr>tr_delta = Some \<lparr>updates = overwrite_merge [] (updates d), checkpoint = checkpoint d\<rparr>,
        dirty = True\<rparr>"
    using set_delta_empty [of t0 api d] ow by (simp add: t0_def)
  have m: "snd (simple_merge api h s collab d)
             = s\<lparr>state := [(name collab, set_delta api t0 d)]\<rparr>"
    using g ne by (simp add: simple_merge_def)
  have dist: "distinct (map fst (overwrite_merge [] (updates d)))"
    unfolding overwrite_merge_def by (rule distinct_foldl_update) simp
  show ?thesis
    using m sd dbm_merge_items [OF ne, of S collab] it dist
    by (simp add: stores_agree_def)
next
  case (Some t)
  then have st: "state s = [(name collab, t)]"
    and td: "tr_delta t = Some \<lparr>updates = db_items S (name collab),
                                  checkpoint = db_get S (checkpoint_ns collab) ''_checkpoint''\<rparr>"
    and dist0: "distinct (map fst (db_items S (name collab)))"
    using agree by (simp_all add: stores_agree_def)
  have sd: "set_delta api t d =
       \<lparr>tr_delta = Some \<lparr>updates = overwrite_merge (db_items S (name collab)) (updates d),
                          checkpoint = checkpoint d\<rparr>,
        dirty = True\<rparr>"
    using set_delta_tracked [OF td, of api d] ow by simp
  have m: "snd (simple_merge api h s collab d)
             = s\<lparr>state := [(name collab, set_delta api t d)]\<rparr>"
    using Some st ne by (simp add: simple_merge_def get_state_tracked)
  have dist: "distinct (map fst (overwrite_merge (db_items S (name collab)) (updates d)))"
    unfolding overwrite_merge_def using dist0 by (rule distinct_foldl_update)
  show ?thesis
    using m sd dbm_merge_items [OF ne, of S collab] dist
    by (simp add: stores_agree_def)
qed

lemma dbm_flush_frame:
  "db_items (dbm_flush S collab) (name collab) = db_items S (name collab)
   \<and> db_get (dbm_flush S collab) (checkpoint_ns collab) ''_checkpoint''
       = db_get S (checkpoint_ns collab) ''_checkpoint''"
  using name_neq_checkpoint_ns [of collab]
  by (simp add: dbm_flush_def db_items_set db_get_set)

lemma stores_agree_flush:
  assumes agree: "stores_agree collab b s S"
    and wr: "\<forall>b' n d. \<exists>b''. write_state h b' n d = Inr b''"
  shows "stores_agree collab b (snd (simple_flush h s collab)) (dbm_flush S collab)
         \<and> (map_of (state (snd (simple_flush h s collab))) (name collab) = None
              \<longleftrightarrow> map_of (state s) (name collab) = None)"
proof (cases "map_of (state s) (name collab)")
  case None
  then have st: "state s = []" using agree by (simp add: stores_agree_def)
  have "snd (simple_flush h s collab) = s" using st by (simp add: simple_flush_def)
  then show ?thesis
    using agree None dbm_flush_frame [of S collab] by (simp add: stores_agree_def)
next
  case (Some t)
  then have st: "state s = [(name collab, t)]"
    and td: "tr_delta t = Some \<lparr>updates = db_items S (name collab),
                                  checkpoint = db_get S (checkpoint_ns collab) ''_checkpoint''\<rparr>"
    and dist0: "distinct (map fst (db_items S (name collab)))"
    using agree by (simp_all add: stores_agree_def)
  obtain d where d: "tr_delta t = Some d" using td by simp
  obtain b1 where w: "write_state h (backing s) (name collab) d = Inr b1"
    using wr by blast
  have "state (snd (simple_flush h s collab)) = [(name collab, t\<lparr>dirty := False\<rparr>)]"
    using st d w by (cases "dirty t") (simp_all add: simple_flush_def tracker_delta_def clean_tracker_id)
  then show ?thesis
    using Some td dist0 dbm_flush_frame [of S collab] by (simp add: stores_agree_def)
qed

lemma stores_agree_run:
  assumes fresh: "read_state h b (name collab) = Inr None"
    and wr: "\<forall>b' n d. \<exists>b''. write_state h b' n d = Inr b''"
    and ow: "\<forall>old new. naive_fetch_merge api old new = overwrite_merge old new"
  shows "stores_agree collab b s S \<Longrightarrow> \<forall>d. Merge d \<in> set calls \<longrightarrow> updates d \<noteq> [] \<Longrightarrow>
     stores_agree collab b (simple_run api h collab s calls) (dbm_run collab S calls)
     \<and> (map_of (state s) (name collab) \<noteq> None \<or> (\<exists>d. Merge d \<in> set calls) \<longrightarrow>
          map_of (state (simple_run api h collab s calls)) (name collab) \<noteq> None)"
proof (induction calls arbitrary: s S)
  case Nil
  then show ?case by (simp add: simple_run_def dbm_run_def)
next
  case (Cons x calls)
  define s1 where "s1 = snd (simple_call api h collab s x)"
  define S1 where "S1 = dbm_call collab S x"
  have run: "simple_run api h collab s (x # calls) = simple_run api h collab s1 calls"
    "dbm_run collab S (x # calls) = dbm_run collab S1 calls"
    by (simp_all add: simple_run_def dbm_run_def s1_def S1_def)
  have rest: "\<forall>d. Merge d \<in> set calls \<longrightarrow> updates d \<noteq> []" using Cons.prems(2) by simp
  have step: "stores_agree collab b s1 S1
      \<and> (map_of (state s) (name collab) \<noteq> None \<or> (\<exists>d. x = Merge d) \<longrightarrow>
           map_of (state s1) (name collab) \<noteq> None)"
  proof (cases x)
    case (Merge d)
    have ne: "updates d \<noteq> []" using Cons.prems(2) Merge by simp
    show ?thesis
      using stores_agree_merge [OF Cons.prems(1) fresh ow ne] Merge
      by (simp add: s1_def S1_def)
  next
    case Flush
    show ?thesis
      using stores_agree_flush [OF Cons.prems(1) wr] Flush
      by (simp add: s1_def S1_def)
  qed
  have ih: "stores_agree collab b (simple_run api h collab s1 calls) (dbm_run collab S1 calls)
     \<and> (map_of (state s1) (name collab) \<noteq> None \<or> (\<exists>d. Merge d \<in> set calls) \<longrightarrow>
          map_of (state (simple_run api h collab s1 calls)) (name collab) \<noteq> None)"
    using Cons.IH [OF _ rest, of s1 S1] step by blast
  show ?case
    using ih step run by auto
qed

lemma stores_agree_checkpoint:
  assumes agree: "stores_agree collab b s S"
    and fresh: "read_state h b (name collab) = Inr None"
  shows "fst (simple_get_checkpoint h s collab)
           = Inr (db_get S (checkpoint_ns collab) ''_checkpoint'')"
proof (cases "map_of (state s) (name collab)")
  case None
  then show ?thesis
    using agree fresh
    by (simp add: stores_agree_def simple_get_checkpoint_def get_state_def Let_def
        tracker_checkpoint_def)
next
  case (Some t)
  then show ?thesis
    using agree
    by (simp add: stores_agree_def simple_get_checkpoint_def get_state_tracked
        tracker_checkpoint_def)
qed

lemma stores_agree_projection:
  assumes agree: "stores_agree collab b s S"
    and fresh: "read_state h b (name collab) = Inr None"
    and tr: "map_of (state s) (name collab) \<noteq> None
             \<or> dict_get (naive_convert_to_signal_type api [st] collab []) st [] = []"
  shows "fst (simple_get_for_signal_type api h s [collab] st)
           = Inr (dbm_get_for_signal_type api S [collab] st)"
proof (cases "map_of (state s) (name collab)")
  case None
  then have z: "dict_get (naive_convert_to_signal_type api [st] collab []) st [] = []"
    and it: "db_items S (name collab) = []" and bk: "backing s = b"
    using tr agree by (simp_all add: stores_agree_def)
  show ?thesis
    using None z it bk fresh
    by (simp add: simple_get_for_signal_type_def dbm_get_for_signal_type_def get_state_def
        Let_def tracker_empty_def dict_of_items_def)
next
  case (Some t)
  then have td: "tr_delta t = Some \<lparr>updates = db_items S (name collab),
                                  checkpoint = db_get S (checkpoint_ns collab) ''_checkpoint''\<rparr>"
    and dist0: "distinct (map fst (db_items S (name collab)))"
    using agree by (simp_all add: stores_agree_def)
  show ?thesis
    using Some td dict_of_items_distinct [OF dist0]
    by (simp add: simple_get_for_signal_type_def dbm_get_for_signal_type_def get_state_tracked
        Let_def tracker_empty_def tracker_delta_def)
qed

text \<open>
  C5 (as the code has it).  Take one collaboration without a prior snapshot, write hooks
  that do not raise, a \<^verbatim>\<open>naive_fetch_merge\<close> that assigns every new entry to its key (what the
  persistent store does with each delta), and any sequence of merge and flush calls in
  which every merged delta has updates.  Started from empty stores, the two strategies then
  give the same \<open>get_for_signal_type\<close> for that collaboration (provided a delta was merged or
  the converter yields nothing on empty data), and after a flush the same \<open>get_checkpoint\<close>.
\<close>

theorem strategies_agree_on_overwrite:
  assumes fresh: "read_state h b (name collab) = Inr None"
    and wr: "\<forall>b' n d. \<exists>b''. write_state h b' n d = Inr b''"
    and ow: "\<forall>old new. naive_fetch_merge api old new = overwrite_merge old new"
    and ne: "\<forall>d. Merge d \<in> set calls \<longrightarrow> updates d \<noteq> []"
  shows "((\<exists>d. Merge d \<in> set calls)
            \<or> dict_get (naive_convert_to_signal_type api [st] collab []) st [] = [] \<longrightarrow>
          fst (simple_get_for_signal_type api h
                 (simple_run api h collab (simple_init b) calls) [collab] st)
            = Inr (dbm_get_for_signal_type api (dbm_run collab db_init calls) [collab] st))
         \<and> fst (simple_get_checkpoint h
                  (simple_run api h collab (simple_init b) (calls @ [Flush])) collab)
             = Inr (dbm_get_checkpoint (dbm_run collab db_init (calls @ [Flush])) collab)"
proof
  have r: "stores_agree collab b (simple_run api h collab (simple_init b) calls)
             (dbm_run collab db_init calls)
     \<and> ((\<exists>d. Merge d \<in> set calls) \<longrightarrow>
          map_of (state (simple_run api h collab (simple_init b) calls)) (name collab) \<noteq> None)"
    using stores_agree_run [OF fresh wr ow stores_agree_init ne] by blast
  show "(\<exists>d. Merge d \<in> set calls)
            \<or> dict_get (naive_convert_to_signal_type api [st] collab []) st [] = [] \<longrightarrow>
          fst (simple_get_for_signal_type api h
                 (simple_run api h collab (simple_init b) calls) [collab] st)
            = Inr (dbm_get_for_signal_type api (dbm_run collab db_init calls) [collab] st)"
  proof
    assume "(\<exists>d. Merge d \<in> set calls)
            \<or> dict_get (naive_convert_to_signal_type api [st] collab []) st [] = []"
    then have "map_of (state (simple_run api h collab (simple_init b) calls)) (name collab) \<noteq> None
             \<or> dict_get (naive_convert_to_signal_type api [st] collab []) st [] = []"
      using r by blast
    then show "fst (simple_get_for_signal_type api h
                 (simple_run api h collab (simple_init b) calls) [collab] st)
            = Inr (dbm_get_for_signal_type api (dbm_run collab db_init calls) [collab] st)"
      using stores_agree_projection [of collab b _ _ h api st] r fresh by blast
  qed
next
  have ne': "\<forall>d. Merge d \<in> set (calls @ [Flush]) \<longrightarrow> updates d \<noteq> []" using ne by simp
  have r: "stores_agree collab b (simple_run api h collab (simple_init b) (calls @ [Flush]))
             (dbm_run collab db_init (calls @ [Flush]))"
    using stores_agree_run [OF fresh wr ow stores_agree_init ne'] by blast
  have "dbm_run collab db_init (calls @ [Flush])
          = dbm_flush (dbm_run collab db_init calls) collab"
    by (simp add: dbm_run_def)
  then have "dbm_get_checkpoint (dbm_run collab db_init (calls @ [Flush])) collab
          = db_get (dbm_run collab db_init (calls @ [Flush])) (checkpoint_ns collab) ''_checkpoint''"
    using dbm_flush_frame [of "dbm_run collab db_init calls" collab]
    by (simp add: dbm_get_checkpoint_flush)
  then show "fst (simple_get_checkpoint h
                  (simple_run api h collab (simple_init b) (calls @ [Flush])) collab)
             = Inr (dbm_get_checkpoint (dbm_run collab db_init (calls @ [Flush])) collab)"
    using stores_agree_checkpoint [OF r fresh] by simp
qed


theorem strategies_agree_on_overwrite_witness:
  "read_state dict_hooks ([] :: nat FetchDelta pydict) (name collab_a) = Inr None
   \<and> (\<forall>(b' :: nat FetchDelta pydict) n d. \<exists>b''. write_state dict_hooks b' n d = Inr b'')
   \<and> (\<forall>old new. naive_fetch_merge overwrite_api old new = overwrite_merge old new)
   \<and> updates delta_1 \<noteq> [] \<and> updates delta_2 \<noteq> []
   \<and> dbm_get_for_signal_type overwrite_api
        (dbm_run collab_a db_init [Merge delta_1, Flush, Merge delta_2]) [collab_a] 0
       = [(''a'', [(''k1'', None)])]
   \<and> fst (simple_get_for_signal_type overwrite_api dict_hooks
             (simple_run overwrite_api dict_hooks collab_a (simple_init [])
                [Merge delta_1, Flush, Merge delta_2]) [collab_a] 0)
       = Inr [(''a'', [(''k1'', None)])]
   \<and> dbm_get_checkpoint
        (dbm_run collab_a db_init ([Merge delta_1, Flush, Merge delta_2] @ [Flush])) collab_a
       = Some 200
   \<and> fst (simple_get_checkpoint dict_hooks
             (simple_run overwrite_api dict_hooks collab_a (simple_init [])
                ([Merge delta_1, Flush, Merge delta_2] @ [Flush])) collab_a)
       = Inr (Some 200)"
proof -
  have h1: "read_state dict_hooks ([] :: nat FetchDelta pydict) (name collab_a) = Inr None"
    by (simp add: dict_hooks_def)
  have h2: "\<forall>(b' :: nat FetchDelta pydict) n d. \<exists>b''. write_state dict_hooks b' n d = Inr b''"
    by (simp add: dict_hooks_def)
  have h3: "\<forall>old new. naive_fetch_merge overwrite_api old new = overwrite_merge old new"
    by (simp add: overwrite_api_def)
  have h4: "\<forall>d. Merge d \<in> set [Merge delta_1, Flush, Merge delta_2] \<longrightarrow> updates d \<noteq> []"
    by (auto simp: delta_1_def delta_2_def)
  have m: "\<exists>d. Merge d \<in> set [Merge delta_1, Flush, Merge delta_2]" by auto
  have S2: "db_items (dbm_run collab_a db_init [Merge delta_1, Flush, Merge delta_2]) ''a''
              = [(''k1'', None)]
            \<and> db_get (dbm_run collab_a db_init [Merge delta_1, Flush, Merge delta_2])
                ''a_checkpoint'' ''_checkpoint'' = Some 200"
    by (simp add: dbm_run_def dbm_defs sample_defs)
  have d1: "dbm_get_for_signal_type overwrite_api
        (dbm_run collab_a db_init [Merge delta_1, Flush, Merge delta_2]) [collab_a] 0
       = [(''a'', [(''k1'', None)])]"
    using S2
    by (simp add: dbm_get_for_signal_type_def dict_of_items_def dict_get_def Let_def sample_defs)
  have d2: "dbm_get_checkpoint
        (dbm_run collab_a db_init ([Merge delta_1, Flush, Merge delta_2] @ [Flush])) collab_a
       = Some 200"
    using S2 by (simp add: dbm_run_def dbm_get_checkpoint_flush checkpoint_ns_def collab_a_def)
  note t = strategies_agree_on_overwrite [OF h1 h2 h3 h4, of 0]
  have s1: "fst (simple_get_for_signal_type overwrite_api dict_hooks
             (simple_run overwrite_api dict_hooks collab_a (simple_init [])
                [Merge delta_1, Flush, Merge delta_2]) [collab_a] 0)
       = Inr [(''a'', [(''k1'', None)])]"
    using t m d1 by simp
  have s2: "fst (simple_get_checkpoint dict_hooks
             (simple_run overwrite_api dict_hooks collab_a (simple_init [])
                ([Merge delta_1, Flush, Merge delta_2] @ [Flush])) collab_a)
       = Inr (Some 200)"
    using t d2 by simp
  have h5: "updates delta_1 \<noteq> [] \<and> updates delta_2 \<noteq> []"
    by (simp add: delta_1_def delta_2_def)
  show ?thesis using h1 h2 h3 h5 d1 s1 d2 s2 by blast
qed

text \<open>
  Without these conditions the strategies differ.  With a merge function that deletes a key
  on \<^verbatim>\<open>None\<close>, the in-memory store drops \<open>k1\<close> while the persistent store keeps it with value
  \<^verbatim>\<open>None\<close>.  And a delta without updates is tested against the last merged checkpoint in
  memory but against the last committed one in the persistent store, so the two report
  different checkpoints after the final flush.
\<close>

theorem strategies_differ_counterexample:
  "fst (simple_get_for_signal_type tombstone_api dict_hooks
          (simple_run tombstone_api dict_hooks collab_a (simple_init [])
             [Merge delta_1, Merge delta_2]) [collab_a] 0)
     = Inr []
   \<and> dbm_get_for_signal_type tombstone_api
        (dbm_run collab_a db_init [Merge delta_1, Merge delta_2]) [collab_a] 0
       = [(''a'', [(''k1'', None)])]
   \<and> fst (simple_get_checkpoint dict_hooks
             (simple_run overwrite_api dict_hooks collab_a (simple_init [])
                [Merge delta_1, Flush, Merge delta_4, Merge delta_3, Flush]) collab_a)
       = Inr (Some 100)
   \<and> dbm_get_checkpoint
        (dbm_run collab_a db_init [Merge delta_1, Flush, Merge delta_4, Merge delta_3, Flush])
        collab_a
       = Some 300"
proof -
  have 1: "fst (simple_get_for_signal_type tombstone_api dict_hooks
          (simple_run tombstone_api dict_hooks collab_a (simple_init [])
             [Merge delta_1, Merge delta_2]) [collab_a] 0)
     = Inr []"
    by (simp add: simple_run_def simple_defs sample_defs)
  have i2: "db_items (dbm_run collab_a db_init [Merge delta_1, Merge delta_2]) ''a''
              = [(''k1'', None)]"
    by (simp add: dbm_run_def dbm_defs sample_defs)
  have 2: "dbm_get_for_signal_type tombstone_api
        (dbm_run collab_a db_init [Merge delta_1, Merge delta_2]) [collab_a] 0
       = [(''a'', [(''k1'', None)])]"
    using i2
    by (simp add: dbm_get_for_signal_type_def dict_of_items_def dict_get_def Let_def sample_defs)
  have 3: "fst (simple_get_checkpoint dict_hooks
             (simple_run overwrite_api dict_hooks collab_a (simple_init [])
                [Merge delta_1, Flush, Merge delta_4, Merge delta_3, Flush]) collab_a)
       = Inr (Some 100)"
    by (simp add: simple_run_def simple_defs sample_defs)
  have 4: "dbm_get_checkpoint
        (dbm_run collab_a db_init [Merge delta_1, Flush, Merge delta_4, Merge delta_3, Flush])
        collab_a
       = Some 300"
    by (simp add: dbm_run_def dbm_defs sample_defs)
  from 1 2 3 4 show ?thesis by blast
qed

end
